theory Spec2Isabelle
  imports Complex_Main "HOL-Library.AList" "HOL-Library.Multiset"
    "HOL-Library.Char_ord" "HOL-Library.List_Lexorder"
begin

section \<open>Delimited-text parsing (healthParser.ts, splitCSVLine and parseCSV)\<close>

text \<open>
  Strings are lists of characters. The double quote is written \<open>dq\<close>. The source works on
  UTF-16 code units; the model covers text whose code units are single bytes, and
  \<open>trim\<close> and \<open>toLowerCase\<close> are modelled on the ASCII range.
\<close>

definition dq :: char where
  "dq = CHR 0x22"

definition isSpace :: "char \<Rightarrow> bool" where
  "isSpace c = (c = CHR '' '' \<or> c = CHR 0x09 \<or> c = CHR 0x0A \<or> c = CHR 0x0B
                \<or> c = CHR 0x0C \<or> c = CHR 0x0D)"

text \<open>\<open>String.prototype.trim\<close>: white space is removed at both ends.\<close>

definition trim :: "string \<Rightarrow> string" where
  "trim s = rev (dropWhile isSpace (rev (dropWhile isSpace s)))"

text \<open>
  \<open>.replace(/^"|"$/g, '')\<close>: one double quote is removed at the start of the string and
  one at its end, each when present.
\<close>

definition stripQuotes :: "string \<Rightarrow> string" where
  "stripQuotes s =
     (let s1 = (case s of [] \<Rightarrow> [] | c # cs \<Rightarrow> if c = dq then cs else c # cs)
      in if s1 \<noteq> [] \<and> last s1 = dq then butlast s1 else s1)"

text \<open>
  \<open>.replace(/""/g, '"')\<close>: scanning from the left, every pair of adjacent double quotes
  becomes one double quote.
\<close>

fun collapseQuotes :: "string \<Rightarrow> string" where
  "collapseQuotes (a # b # cs) =
     (if a = dq \<and> b = dq then dq # collapseQuotes cs else a # collapseQuotes (b # cs))"
| "collapseQuotes cs = cs"

text \<open>What is pushed for a finished field:
  \<open>current.trim().replace(/^"|"$/g, '').replace(/""/g, '"')\<close>.\<close>

definition cleanField :: "string \<Rightarrow> string" where
  "cleanField current = collapseQuotes (stripQuotes (trim current))"

text \<open>
  The loop of \<open>splitCSVLine\<close> over the characters of the line, with its three variables
  \<open>result\<close>, \<open>current\<close> and \<open>inQuotes\<close>. A double quote only toggles \<open>inQuotes\<close>; a
  comma outside quotes finishes a field; any other character is appended to \<open>current\<close>.
  After the loop the last field is pushed.
\<close>

fun splitLoop :: "string \<Rightarrow> string list \<Rightarrow> string \<Rightarrow> bool \<Rightarrow> string list" where
  "splitLoop [] result current inQuotes = result @ [cleanField current]"
| "splitLoop (c # cs) result current inQuotes =
     (if c = dq then splitLoop cs result current (\<not> inQuotes)
      else if c = CHR '','' \<and> \<not> inQuotes
        then splitLoop cs (result @ [cleanField current]) [] inQuotes
      else splitLoop cs result (current @ [c]) inQuotes)"

definition splitCSVLine :: "string \<Rightarrow> string list" where
  "splitCSVLine line = splitLoop line [] [] False"

text \<open>\<open>csvText.split('\n')\<close>: there is always at least one piece.\<close>

fun splitNL :: "string \<Rightarrow> string list" where
  "splitNL [] = [[]]"
| "splitNL (c # cs) =
     (if c = CHR 0x0A then [] # splitNL cs
      else (case splitNL cs of l # ls \<Rightarrow> (c # l) # ls | [] \<Rightarrow> [[c]]))"

text \<open>\<open>toLowerCase\<close> on the ASCII letters.\<close>

definition lowerChar :: "char \<Rightarrow> char" where
  "lowerChar c =
     (if (65::nat) \<le> of_char c \<and> of_char c \<le> (90::nat) then char_of (of_char c + (32::nat)) else c)"

definition toLowerCase :: "string \<Rightarrow> string" where
  "toLowerCase s = map lowerChar s"

text \<open>\<open>s.includes(sub)\<close>: \<open>sub\<close> occurs in \<open>s\<close> as a contiguous piece.\<close>

definition startsWith :: "string \<Rightarrow> string \<Rightarrow> bool" where
  "startsWith s sub = (take (length sub) s = sub)"

fun includes_str :: "string \<Rightarrow> string \<Rightarrow> bool" where
  "includes_str [] sub = (sub = [])"
| "includes_str (c # cs) sub = (startsWith (c # cs) sub \<or> includes_str cs sub)"

text \<open>\<open>Array.prototype.findIndex\<close>; the source's \<open>-1\<close> is \<open>None\<close>.\<close>

fun findIndex :: "('a \<Rightarrow> bool) \<Rightarrow> 'a list \<Rightarrow> nat option" where
  "findIndex P [] = None"
| "findIndex P (x # xs) =
     (if P x then Some 0 else (case findIndex P xs of None \<Rightarrow> None | Some i \<Rightarrow> Some (Suc i)))"

definition hasKeyword :: "string \<Rightarrow> bool" where
  "hasKeyword lowerLine =
     (includes_str lowerLine ''date'' \<or> includes_str lowerLine ''time'' \<or>
      includes_str lowerLine ''count'' \<or> includes_str lowerLine ''efficiency'' \<or>
      includes_str lowerLine ''duration'' \<or> includes_str lowerLine ''step'')"

definition wideLine :: "string \<Rightarrow> bool" where
  "wideLine line = (5 < length (splitCSVLine line))"

text \<open>The test of the header loop: more than 5 columns and a keyword in the lowercase line.\<close>

definition isHeaderLine :: "string \<Rightarrow> bool" where
  "isHeaderLine line = (wideLine line \<and> hasKeyword (toLowerCase line))"

text \<open>
  The header search of \<open>parseCSV\<close>: the loop over \<open>i < Math.min(lines.length, 12)\<close> that
  breaks at the first qualifying line, then, when it found none, \<open>lines.findIndex\<close> over
  all the lines.
\<close>

definition findHeaderIndex :: "string list \<Rightarrow> nat option" where
  "findHeaderIndex lines =
     (case findIndex isHeaderLine (take 12 lines) of
        Some i \<Rightarrow> Some i
      | None \<Rightarrow> findIndex wideLine lines)"

text \<open>
  One data row: the line is trimmed; an empty line and a line with fewer values than
  headers are skipped (\<open>None\<close>); otherwise the object maps each header to the value at
  the same index, a repeated header keeping its first position and its last value.
\<close>

definition rowObject :: "string list \<Rightarrow> string list \<Rightarrow> (string \<times> string) list" where
  "rowObject headers values = fold (\<lambda>(h, v). AList.update h v) (zip headers values) []"

definition parseRow :: "string list \<Rightarrow> string \<Rightarrow> (string \<times> string) list option" where
  "parseRow headers rawLine =
     (let line = trim rawLine in
      if line = [] then None
      else (let values = splitCSVLine line in
            if length values < length headers then None
            else Some (rowObject headers values)))"

definition parseLines :: "string list \<Rightarrow> (string \<times> string) list list" where
  "parseLines lines =
     (if length lines < 2 then []
      else (case findHeaderIndex lines of
              None \<Rightarrow> []
            | Some h \<Rightarrow> List.map_filter (parseRow (splitCSVLine (lines ! h))) (drop (Suc h) lines)))"

definition parseCSV :: "string \<Rightarrow> (string \<times> string) list list" where
  "parseCSV csvText = parseLines (splitNL csvText)"

section \<open>Numbers\<close>

text \<open>
  A number of the source is the real number it denotes. \<open>Math.round\<close> rounds to the
  nearest integer, a half upwards; \<open>%\<close> is the remainder of the division truncated
  towards zero, with the sign of the dividend; both are exact on doubles. The rounding
  of the double operations is written out where a property depends on it: in the
  correlation, in the circular average and in the quotient of the sleep dedup (see \<open>fl\<close>
  below).
\<close>

definition js_round :: "real \<Rightarrow> int" where
  "js_round x = \<lfloor>x + 1 / 2\<rfloor>"

definition js_trunc :: "real \<Rightarrow> int" where
  "js_trunc x = (if 0 \<le> x then \<lfloor>x\<rfloor> else \<lceil>x\<rceil>)"

definition js_rem :: "real \<Rightarrow> real \<Rightarrow> real" where
  "js_rem a b = a - b * of_int (js_trunc (a / b))"

text \<open>The same remainder on two integer values.\<close>

definition js_rem_int :: "int \<Rightarrow> int \<Rightarrow> int" where
  "js_rem_int a b = a - b * js_trunc (of_int a / of_int b)"

text \<open>\<open>Number.prototype.toString\<close> of an integer, and \<open>padStart(2, '0')\<close>.\<close>

definition digitChar :: "nat \<Rightarrow> char" where
  "digitChar d = ''0123456789'' ! d"

fun digitsOf :: "nat \<Rightarrow> string" where
  "digitsOf n = (if n < 10 then [digitChar n] else digitsOf (n div 10) @ [digitChar (n mod 10)])"

declare digitsOf.simps [simp del]

definition toStringInt :: "int \<Rightarrow> string" where
  "toStringInt i = (if i < 0 then CHR ''-'' # digitsOf (nat (- i)) else digitsOf (nat i))"

definition padStart2 :: "string \<Rightarrow> string" where
  "padStart2 s = replicate (2 - length s) (CHR ''0'') @ s"

section \<open>Numbers that may be NaN or infinite\<close>

text \<open>
  Where the source divides by a length that may be 0, or calls \<open>Math.min\<close> on a list that
  may be empty, the result may be \<open>NaN\<close> or \<open>Infinity\<close>. Such values are modelled by
  \<open>jsnum\<close>; the samples themselves are finite numbers.
\<close>

datatype jsnum = Num real | PosInf | NegInf | NaN

text \<open>\<open>a / b\<close> for a finite \<open>a\<close> and a finite \<open>b\<close> that is not negative.\<close>

definition js_div :: "real \<Rightarrow> real \<Rightarrow> jsnum" where
  "js_div a b =
     (if b = 0 then (if a = 0 then NaN else if 0 < a then PosInf else NegInf)
      else Num (a / b))"

text \<open>\<open>Math.round\<close> leaves \<open>NaN\<close> and the infinities as they are.\<close>

fun js_round_num :: "jsnum \<Rightarrow> jsnum" where
  "js_round_num (Num x) = Num (of_int (js_round x))"
| "js_round_num v = v"

text \<open>The test \<open>v > 0\<close>, which is false for \<open>NaN\<close>.\<close>

fun js_positive :: "jsnum \<Rightarrow> bool" where
  "js_positive (Num x) = (0 < x)"
| "js_positive PosInf = True"
| "js_positive NegInf = False"
| "js_positive NaN = False"

text \<open>
  \<open>Math.min(...vals)\<close>: \<open>Infinity\<close> for no argument, \<open>NaN\<close> when an argument is \<open>NaN\<close>,
  the smallest argument otherwise.
\<close>

fun js_min2 :: "jsnum \<Rightarrow> jsnum \<Rightarrow> jsnum" where
  "js_min2 NaN b = NaN"
| "js_min2 a NaN = NaN"
| "js_min2 NegInf b = NegInf"
| "js_min2 a NegInf = NegInf"
| "js_min2 PosInf b = b"
| "js_min2 a PosInf = a"
| "js_min2 (Num a) (Num b) = Num (min a b)"

definition Math_min :: "jsnum list \<Rightarrow> jsnum" where
  "Math_min vals = foldl js_min2 PosInf vals"

section \<open>Double arithmetic\<close>

text \<open>
  Every arithmetic operation on doubles returns the double nearest to the exact result,
  a tie going to the even significand. \<open>fl x\<close> is that double for a real \<open>x\<close>: with
  \<open>2\<^sup>e \<le> |x| < 2\<^sup>e\<^sup>+\<^sup>1\<close> the doubles around \<open>x\<close> are the multiples of \<open>2\<^sup>e\<^sup>-\<^sup>5\<^sup>2\<close>. The model covers
  the normal range of doubles: no overflow to \<open>Infinity\<close> and no subnormal number.
\<close>

definition roundEven :: "real \<Rightarrow> int" where
  "roundEven x =
     (if x - of_int \<lfloor>x\<rfloor> < 1 / 2 then \<lfloor>x\<rfloor>
      else if 1 / 2 < x - of_int \<lfloor>x\<rfloor> then \<lfloor>x\<rfloor> + 1
      else if even \<lfloor>x\<rfloor> then \<lfloor>x\<rfloor>
      else \<lfloor>x\<rfloor> + 1)"

definition fl :: "real \<Rightarrow> real" where
  "fl x =
     (if x = 0 then 0
      else 2 powr (of_int \<lfloor>log 2 \<bar>x\<bar>\<rfloor> - 52) *
           of_int (roundEven (x / 2 powr (of_int \<lfloor>log 2 \<bar>x\<bar>\<rfloor> - 52))))"

text \<open>\<open>Math.PI\<close> is the double nearest to \<open>\<pi>\<close>.\<close>

definition Math_PI :: real where
  "Math_PI = fl pi"

text \<open>
  \<open>Math.sin\<close>, \<open>Math.cos\<close> and \<open>Math.atan2\<close> return an approximation that the language
  leaves to the implementation. They are parameters of the model.
\<close>

record MathLib =
  Math_sin :: "real \<Rightarrow> real"
  Math_cos :: "real \<Rightarrow> real"
  Math_atan2 :: "real \<Rightarrow> real \<Rightarrow> real"

section \<open>Circular average, clock format and correlation\<close>

text \<open>
  \<open>calculateCircularAverage\<close>, with the rounding of every operation. \<open>angleOf\<close> is the
  \<open>angle\<close> of the callback, \<open>(m / 1440) * 2 * Math.PI\<close>; the \<open>forEach\<close> accumulates
  \<open>sinSum\<close> and \<open>cosSum\<close> from the left; \<open>avgAngle\<close> is the result of \<open>Math.atan2\<close>.
\<close>

definition angleOf :: "real \<Rightarrow> real" where
  "angleOf m = fl (fl (fl (m / 1440) * 2) * Math_PI)"

definition sinSum :: "MathLib \<Rightarrow> real list \<Rightarrow> real" where
  "sinSum lib minutesArray = foldl (\<lambda>acc m. fl (acc + Math_sin lib (angleOf m))) 0 minutesArray"

definition cosSum :: "MathLib \<Rightarrow> real list \<Rightarrow> real" where
  "cosSum lib minutesArray = foldl (\<lambda>acc m. fl (acc + Math_cos lib (angleOf m))) 0 minutesArray"

definition avgAngle :: "MathLib \<Rightarrow> real list \<Rightarrow> real" where
  "avgAngle lib minutesArray =
     Math_atan2 lib (fl (sinSum lib minutesArray / real (length minutesArray)))
                    (fl (cosSum lib minutesArray / real (length minutesArray)))"

definition calculateCircularAverage :: "MathLib \<Rightarrow> real list \<Rightarrow> real" where
  "calculateCircularAverage lib minutesArray =
     (if length minutesArray = 0 then 0
      else
        (let avgAngle2 =
               (if avgAngle lib minutesArray < 0
                then fl (avgAngle lib minutesArray + fl (2 * Math_PI))
                else avgAngle lib minutesArray)
         in fl (fl (avgAngle2 / fl (2 * Math_PI)) * 1440)))"

text \<open>
  \<open>formatToHHmm\<close>: \<open>Math.floor(minutes / 60) % 24\<close> and \<open>Math.round(minutes % 60)\<close>, each
  printed and padded to two characters. For a double from 0 to 1440 the rounded quotient
  \<open>minutes / 60\<close> has the floor of the exact quotient (the double just below a multiple
  of 60 divides to a double below the integer), and \<open>%\<close> and \<open>Math.round\<close> are exact, so
  the function is written over the exact values.
\<close>

definition formatToHHmm :: "real \<Rightarrow> string" where
  "formatToHHmm minutes =
     (if minutes = 0 then ''--:--''
      else
        (let h = js_rem_int \<lfloor>minutes / 60\<rfloor> 24;
             m = js_round (js_rem minutes 60)
         in padStart2 (toStringInt h) @ '':'' @ padStart2 (toStringInt m)))"


section \<open>Sleep reconciliation (transformHealthData, enrichedSleep and keptSleep)\<close>

text \<open>
  A raw sleep row as \<open>transformHealthData\<close> reads it, after the field look-ups and the
  parsing of numbers and dates, which are library calls:
  \<^item> \<open>r_fileName\<close> is \<open>s._fileName || ''\<close>;
  \<^item> \<open>r_offsetMinutes\<close> is the result of \<open>parseOffset\<close>;
  \<^item> \<open>r_start\<close> is the first present of the three start fields, \<open>r_end\<close> the first
    present of the two end fields: \<open>Absent\<close> when no field has a value, \<open>Invalid\<close> when
    \<open>new Date\<close> of the text has \<open>getTime() = NaN\<close>, \<open>Valid t\<close> with \<open>t = getTime()\<close> in
    milliseconds otherwise;
  \<^item> \<open>r_duration\<close>, \<open>r_efficiency\<close> and \<open>r_score\<close> are the values of the
    \<open>parseFloat(..) || parseFloat(..) || 0\<close> chains.
  Time stamps stay inside the range of \<open>Date\<close>, so that \<open>new Date\<close> of a number only
  drops its fraction.
\<close>

datatype js_error = TypeError

datatype dateField = Absent | Invalid | Valid int

record SleepRow =
  r_fileName :: string
  r_offsetMinutes :: int
  r_start :: dateField
  r_end :: dateField
  r_duration :: real
  r_efficiency :: real
  r_score :: real

text \<open>
  The fields that the enrichment adds to a row: \<open>_start\<close>, \<open>_end\<close> (milliseconds),
  \<open>_duration\<close> (the asleep time, minutes), \<open>_rawDuration\<close>, \<open>_efficiency\<close>, \<open>_score\<close> and
  \<open>_isCombined\<close>.
\<close>

record SleepSession =
  s_start :: int
  s_end :: int
  s_duration :: real
  s_rawDuration :: real
  s_efficiency :: real
  s_score :: real
  s_isCombined :: bool

text \<open>
  \<open>end.getTime()\<close>: a missing end field gives \<open>new Date(0)\<close>, an unparseable one gives
  \<open>NaN\<close> (\<open>None\<close>).
\<close>

definition endGetTime :: "SleepRow \<Rightarrow> int option" where
  "endGetTime s = (case r_end s of Absent \<Rightarrow> Some 0 | Invalid \<Rightarrow> None | Valid e \<Rightarrow> Some e)"

text \<open>\<open>(end.getTime() - start.getTime()) / 60000\<close>.\<close>

definition spanMinutes :: "int \<Rightarrow> int \<Rightarrow> real" where
  "spanMinutes start e = of_int (e - start) / 60000"

text \<open>
  The callback of \<open>data.sleep.map\<close>. With no start field \<open>startTime\<close> is \<open>undefined\<close> and
  \<open>startTime.includes\<close> throws a \<open>TypeError\<close>; with an unparseable start the callback
  returns \<open>null\<close> (\<open>None\<close>).
\<close>

definition enrichSleep :: "SleepRow \<Rightarrow> js_error + SleepSession option" where
  "enrichSleep s =
     (case r_start s of
        Absent \<Rightarrow> Inl TypeError
      | Invalid \<Rightarrow> Inr None
      | Valid start \<Rightarrow>
          (let isCombined = includes_str (toLowerCase (r_fileName s)) ''combined'';
               rawDuration0 =
                 (if r_duration s > 1440 then r_duration s / 60000 else r_duration s);
               localStart = start + r_offsetMinutes s * 60000;
               endUnusable = (case endGetTime s of None \<Rightarrow> True | Some e \<Rightarrow> e \<le> start);
               localEnd =
                 (if endUnusable then js_trunc (of_int localStart + rawDuration0 * 60000)
                  else the (endGetTime s) + r_offsetMinutes s * 60000);
               rawDuration =
                 (if endUnusable then rawDuration0
                  else if rawDuration0 = 0 then spanMinutes start (the (endGetTime s))
                  else rawDuration0);
               efficiency =
                 (if 0 < r_efficiency s \<and> r_efficiency s \<le> 1 then r_efficiency s * 100
                  else r_efficiency s);
               asleepTime =
                 (if \<not> isCombined \<and> 0 < efficiency \<and> efficiency < 100
                  then (case endGetTime s of
                          None \<Rightarrow> rawDuration
                        | Some e \<Rightarrow>
                            if \<bar>spanMinutes start e - rawDuration\<bar> < 5
                            then rawDuration * (efficiency / 100)
                            else rawDuration)
                  else rawDuration)
           in Inr (Some \<lparr>s_start = localStart, s_end = localEnd, s_duration = asleepTime,
                          s_rawDuration = rawDuration, s_efficiency = efficiency,
                          s_score = r_score s, s_isCombined = isCombined\<rparr>)))"

text \<open>
  \<open>data.sleep.map(..).filter(s => s !== null && s._duration > 0)\<close>; the first row that
  throws ends the whole call.
\<close>

fun enrichAll :: "SleepRow list \<Rightarrow> js_error + SleepSession list" where
  "enrichAll [] = Inr []"
| "enrichAll (s # rest) =
     (case enrichSleep s of
        Inl e \<Rightarrow> Inl e
      | Inr r \<Rightarrow>
          (case enrichAll rest of
             Inl e \<Rightarrow> Inl e
           | Inr rs \<Rightarrow>
               Inr ((case r of
                       None \<Rightarrow> []
                     | Some x \<Rightarrow> if 0 < s_duration x then [x] else []) @ rs)))"

text \<open>
  \<open>Array.prototype.sort\<close> with a comparator: the sort is stable, and an element goes
  before another when the comparator's result is negative. The model is the stable
  insertion sort.
\<close>

fun insertBy :: "('a \<Rightarrow> 'a \<Rightarrow> real) \<Rightarrow> 'a \<Rightarrow> 'a list \<Rightarrow> 'a list" where
  "insertBy cmp x [] = [x]"
| "insertBy cmp x (y # ys) = (if cmp x y \<le> 0 then x # y # ys else y # insertBy cmp x ys)"

definition sortBy :: "('a \<Rightarrow> 'a \<Rightarrow> real) \<Rightarrow> 'a list \<Rightarrow> 'a list" where
  "sortBy cmp xs = foldr (insertBy cmp) xs []"

text \<open>The comparator of \<open>enrichedSleep.sort\<close>.\<close>

definition compareSleep :: "SleepSession \<Rightarrow> SleepSession \<Rightarrow> real" where
  "compareSleep a b =
     (if s_isCombined a \<and> \<not> s_isCombined b then - 1
      else if \<not> s_isCombined a \<and> s_isCombined b then 1
      else s_duration b - s_duration a)"

text \<open>
  The body of \<open>keptSleep.some\<close>: the overlap in minutes, then the test against 0.8. The
  two divisions are rounded, and \<open>0.8\<close> is the double nearest to 8/10. (The differences
  of time stamps are exact, and the sign of the comparator's difference is the sign of
  the exact difference.)
\<close>

definition overlapDuration :: "SleepSession \<Rightarrow> SleepSession \<Rightarrow> real" where
  "overlapDuration record kept =
     (let overlapStart = max (s_start record) (s_start kept);
          overlapEnd = min (s_end record) (s_end kept)
      in fl (of_int (max 0 (overlapEnd - overlapStart)) / 60000))"

definition isEncapsulated :: "SleepSession list \<Rightarrow> SleepSession \<Rightarrow> bool" where
  "isEncapsulated keptSleep record =
     list_ex (\<lambda>kept. fl (overlapDuration record kept / s_duration record) > fl (8 / 10))
       keptSleep"

text \<open>One round of \<open>enrichedSleep.forEach\<close>, and the whole dedup.\<close>

definition keepStep :: "SleepSession list \<Rightarrow> SleepSession \<Rightarrow> SleepSession list" where
  "keepStep keptSleep record =
     (if isEncapsulated keptSleep record then keptSleep else keptSleep @ [record])"

definition dedupSleep :: "SleepSession list \<Rightarrow> SleepSession list" where
  "dedupSleep enrichedSleep = foldl keepStep [] (sortBy compareSleep enrichedSleep)"

section \<open>Per-day wellness values (transformHealthData, dailyHRVData to minSpO2)\<close>

text \<open>
  \<open>a.localeCompare(b)\<close> on date keys. The keys are ISO dates (digits and hyphens), on
  which the comparison is the comparison of the characters from the left.
\<close>

definition localeCompare :: "string \<Rightarrow> string \<Rightarrow> real" where
  "localeCompare a b = (if a < b then - 1 else if b < a then 1 else 0)"

definition sortByDate :: "(string \<times> 'v) list \<Rightarrow> (string \<times> 'v) list" where
  "sortByDate entries = sortBy (\<lambda>a b. localeCompare (fst a) (fst b)) entries"

text \<open>
  A day bucket of \<open>wellnessData\<close> is a pair of the day and its samples, in the order of
  \<open>Object.entries\<close>. For HRV and stress the day's value is
  \<open>Math.round(vals.reduce((a, b) => a + b, 0) / vals.length)\<close>; for SpO2 it is
  \<open>Math.round(Math.min(...vals))\<close>. Then \<open>.filter(d => d.value > 0)\<close> and the sort by date.
\<close>

definition dailyMeanValue :: "real list \<Rightarrow> jsnum" where
  "dailyMeanValue vals = js_round_num (js_div (foldl (\<lambda>a b. a + b) 0 vals) (real (length vals)))"

definition dailyMeanData :: "(string \<times> real list) list \<Rightarrow> (string \<times> jsnum) list" where
  "dailyMeanData buckets =
     sortByDate (filter (\<lambda>d. js_positive (snd d))
       (map (\<lambda>(date, vals). (date, dailyMeanValue vals)) buckets))"

definition dailyMinValue :: "real list \<Rightarrow> jsnum" where
  "dailyMinValue vals = js_round_num (Math_min (map Num vals))"

definition dailySpO2 :: "(string \<times> real list) list \<Rightarrow> (string \<times> jsnum) list" where
  "dailySpO2 buckets =
     sortByDate (filter (\<lambda>d. js_positive (snd d))
       (map (\<lambda>(date, vals). (date, dailyMinValue vals)) buckets))"

text \<open>The year's \<open>minSpO2\<close>:
  \<open>dailySpO2Data.length > 0 ? Math.min(...dailySpO2Data.map(d => d.value)) : 0\<close>.\<close>

definition yearMinSpO2 :: "(string \<times> jsnum) list \<Rightarrow> jsnum" where
  "yearMinSpO2 dailySpO2Data =
     (if 0 < length dailySpO2Data then Math_min (map snd dailySpO2Data) else Num 0)"

section \<open>Year statistics and the All Time entry\<close>

text \<open>
  The fields of \<open>YearStats\<close> that the aggregation sums, averages, maximises or sorts. An
  object \<open>{count, date}\<close>, \<open>{name, steps}\<close>, \<open>{date, value}\<close> and the like is a tuple of its
  fields in that order.
\<close>

record YearStats =
  year :: string
  totalSteps :: int
  dailyAvg :: int
  totalCalories :: int
  totalDistance :: real
  bestDay :: "int \<times> string"
  bestMonth :: "string \<times> int"
  avgSleepDuration :: real
  avgEfficiency :: int
  totalWorkouts :: int
  avgRestingHR :: int
  avgHRV :: int
  avgStress :: int
  minSpO2 :: jsnum
  dailyStepData :: "(string \<times> int) list"
  dailySleepData :: "(string \<times> real) list"
  dailySleepScoreData :: "(string \<times> real) list"
  dailyHRData :: "(string \<times> jsnum) list"
  dailyHRVData :: "(string \<times> jsnum) list"
  dailyStressData :: "(string \<times> jsnum) list"
  dailySpO2Data :: "(string \<times> jsnum) list"
  totalWorkoutDuration :: real
  totalWorkoutCalories :: real
  totalWorkoutDistance :: real
  dailyWorkoutData :: "(string \<times> real \<times> real \<times> real) list"
  mostStepsDay :: "int \<times> string"
  longestWorkout :: "real \<times> string \<times> string"
  bestSleepScore :: "real \<times> string"

text \<open>
  The \<open>YearStats\<close> of a year without any record: every sum and every guarded average is
  0, every best is its sentinel and every series is empty.
\<close>

definition emptyYear :: "string \<Rightarrow> YearStats" where
  "emptyYear label =
     \<lparr>year = label, totalSteps = 0, dailyAvg = 0, totalCalories = 0, totalDistance = 0,
      bestDay = (0, []), bestMonth = ([], 0), avgSleepDuration = 0, avgEfficiency = 0,
      totalWorkouts = 0, avgRestingHR = 0, avgHRV = 0, avgStress = 0, minSpO2 = Num 0,
      dailyStepData = [], dailySleepData = [], dailySleepScoreData = [], dailyHRData = [],
      dailyHRVData = [], dailyStressData = [], dailySpO2Data = [],
      totalWorkoutDuration = 0, totalWorkoutCalories = 0, totalWorkoutDistance = 0,
      dailyWorkoutData = [], mostStepsDay = (0, []), longestWorkout = (0, [], []),
      bestSleepScore = (0, [])\<rparr>"

text \<open>
  The body of \<open>if (allYears.length > 0)\<close>: every \<open>reduce\<close> runs from the left over
  \<open>allYears\<close>; \<open>flatMap\<close> concatenates the years' series.
\<close>

definition meanRounded :: "int list \<Rightarrow> int" where
  "meanRounded vs = js_round (of_int (foldl (\<lambda>sum v. sum + v) 0 vs) / real (length vs))"

definition allTime :: "YearStats list \<Rightarrow> YearStats" where
  "allTime allYears =
     \<lparr>year = ''All Time'',
      totalSteps = foldl (\<lambda>sum y. sum + totalSteps y) 0 allYears,
      dailyAvg = meanRounded (map dailyAvg allYears),
      totalCalories = foldl (\<lambda>sum y. sum + totalCalories y) 0 allYears,
      totalDistance = foldl (\<lambda>sum y. sum + totalDistance y) 0 allYears,
      bestDay = foldl (\<lambda>best y. if fst best < fst (bestDay y) then bestDay y else best)
                  (0, []) allYears,
      bestMonth = foldl (\<lambda>best y. if snd best < snd (bestMonth y) then bestMonth y else best)
                    ([], 0) allYears,
      avgSleepDuration =
        foldl (\<lambda>sum y. sum + avgSleepDuration y) 0 allYears / real (length allYears),
      avgEfficiency = meanRounded (map avgEfficiency allYears),
      totalWorkouts = foldl (\<lambda>sum y. sum + totalWorkouts y) 0 allYears,
      avgRestingHR = meanRounded (map avgRestingHR allYears),
      avgHRV = meanRounded (map avgHRV allYears),
      avgStress = meanRounded (map avgStress allYears),
      minSpO2 = Math_min (filter js_positive (map minSpO2 allYears)),
      dailyStepData = sortByDate (concat (map dailyStepData allYears)),
      dailySleepData = sortByDate (concat (map dailySleepData allYears)),
      dailySleepScoreData = sortByDate (concat (map dailySleepScoreData allYears)),
      dailyHRData = sortByDate (concat (map dailyHRData allYears)),
      dailyHRVData = sortByDate (concat (map dailyHRVData allYears)),
      dailyStressData = sortByDate (concat (map dailyStressData allYears)),
      dailySpO2Data = sortByDate (concat (map dailySpO2Data allYears)),
      totalWorkoutDuration = foldl (\<lambda>sum y. sum + totalWorkoutDuration y) 0 allYears,
      totalWorkoutCalories = foldl (\<lambda>sum y. sum + totalWorkoutCalories y) 0 allYears,
      totalWorkoutDistance = foldl (\<lambda>sum y. sum + totalWorkoutDistance y) 0 allYears,
      dailyWorkoutData = sortByDate (concat (map dailyWorkoutData allYears)),
      mostStepsDay =
        foldl (\<lambda>best y. if fst best < fst (mostStepsDay y) then mostStepsDay y else best)
          (0, []) allYears,
      longestWorkout =
        foldl (\<lambda>best y. if fst best < fst (longestWorkout y) then longestWorkout y else best)
          (0, [], []) allYears,
      bestSleepScore =
        foldl (\<lambda>best y. if fst best < fst (bestSleepScore y) then bestSleepScore y else best)
          (0, []) allYears\<rparr>"

section \<open>The whole transformation and its caller\<close>

text \<open>
  The raw data, as far as the discovery of years and the step totals read it. Of a step
  row: the year of its date (\<open>None\<close> when \<open>getFullYear()\<close> is \<open>NaN\<close>), \<open>parseInt(s.count) || 0\<close>
  and whether \<open>source_type\<close> is \<open>'-2'\<close> or missing. Of a heart-rate and an HRV row: the year
  of \<open>start_time\<close>. Of an exercise row: the year of its start time, \<open>None\<close> also when it
  has no start time. Stress and oxygen-saturation rows are not read for years.
\<close>

record StepRow =
  st_year :: "int option"
  st_count :: int
  st_deviceSource :: bool

record HealthData =
  steps :: "StepRow list"
  exercises :: "int option list"
  sleep :: "SleepRow list"
  heartRate :: "int option list"
  hrv :: "int option list"

text \<open>
  The discovery of years: the years of the step rows, of the kept sleep sessions
  (\<open>getFullYear\<close> of \<open>_start\<close> in the ambient time zone, a parameter), of the heart-rate,
  HRV and exercise rows, collected in a set; then \<open>Array.from(yearSet).sort()\<close>, which
  orders the years by their decimal text.
\<close>

definition discoverYears :: "(int \<Rightarrow> int) \<Rightarrow> HealthData \<Rightarrow> SleepSession list \<Rightarrow> int list" where
  "discoverYears getFullYear data processedSleep =
     sort_key toStringInt
       (remdups (List.map_filter st_year (steps data) @
                 map (\<lambda>s. getFullYear (s_start s)) processedSleep @
                 List.map_filter id (heartRate data) @
                 List.map_filter id (hrv data) @
                 List.map_filter id (exercises data)))"

text \<open>The year's step rows and their total, from the body of \<open>years.forEach\<close>.\<close>

definition yearSteps :: "HealthData \<Rightarrow> int \<Rightarrow> StepRow list" where
  "yearSteps data yearInt =
     filter (\<lambda>s. st_year s = Some yearInt \<and> st_deviceSource s) (steps data)"

definition yearTotalSteps :: "HealthData \<Rightarrow> int \<Rightarrow> int" where
  "yearTotalSteps data yearInt = foldl (\<lambda>sum s. sum + st_count s) 0 (yearSteps data yearInt)"

text \<open>
  \<open>transformHealthData\<close>. The result object is the list of its entries. The body of
  \<open>years.forEach\<close>, which builds one \<open>YearStats\<close> from the data, the kept sleep sessions
  and the year, is the parameter \<open>buildYear\<close>. With no year the function logs a warning
  and returns the empty object.
\<close>

definition transformHealthData ::
  "(int \<Rightarrow> int) \<Rightarrow> (HealthData \<Rightarrow> SleepSession list \<Rightarrow> int \<Rightarrow> YearStats) \<Rightarrow> HealthData
    \<Rightarrow> js_error + (string \<times> YearStats) list" where
  "transformHealthData getFullYear buildYear data =
     (case enrichAll (sleep data) of
        Inl e \<Rightarrow> Inl e
      | Inr enrichedSleep \<Rightarrow>
          (let processedSleep = dedupSleep enrichedSleep;
               years = discoverYears getFullYear data processedSleep
           in if length years = 0 then Inr []
              else
                (let result = map (\<lambda>y. (toStringInt y, buildYear data processedSleep y)) years
                 in if 0 < length result
                    then Inr (result @ [(''All Time'', allTime (map snd result))])
                    else Inr result)))"

text \<open>
  \<open>handleFileUpload\<close> of App.tsx after the archive was read (\<open>rawData\<close> is the outcome of
  \<open>parseSamsungHealthZip\<close>): an exception leads to the alert and back to the upload step;
  otherwise the statistics are stored, the latest year or \<open>All Time\<close> is selected and the
  dashboard is shown.
\<close>

datatype appStep = UploadAfterAlert | Dashboard "(string \<times> YearStats) list" string

definition handleFileUpload ::
  "(int \<Rightarrow> int) \<Rightarrow> (HealthData \<Rightarrow> SleepSession list \<Rightarrow> int \<Rightarrow> YearStats)
    \<Rightarrow> js_error + HealthData \<Rightarrow> appStep" where
  "handleFileUpload getFullYear buildYear rawData =
     (case rawData of
        Inl e \<Rightarrow> UploadAfterAlert
      | Inr data \<Rightarrow>
          (case transformHealthData getFullYear buildYear data of
             Inl e \<Rightarrow> UploadAfterAlert
           | Inr transformedData \<Rightarrow>
               (let availableYears =
                      rev (sort (filter (\<lambda>y. y \<noteq> ''All Time'') (map fst transformedData)))
                in if 0 < length availableYears
                   then Dashboard transformedData (hd availableYears)
                   else Dashboard transformedData ''All Time'')))"

text \<open>
  What \<open>App\<close> renders after that: the upload page in the upload step; in the dashboard
  step \<open>stats = allStats[selectedYear]\<close>, and \<open>if (!stats) return null\<close>, so nothing is
  rendered when the selected entry is missing, and the dashboard of the entry otherwise.
\<close>

datatype view = UploadPage | Nothing | DashboardOf YearStats

definition renderApp :: "appStep \<Rightarrow> view" where
  "renderApp st =
     (case st of
        UploadAfterAlert \<Rightarrow> UploadPage
      | Dashboard allStats selectedYear \<Rightarrow>
          (case map_of allStats selectedYear of
             None \<Rightarrow> Nothing
           | Some stats \<Rightarrow> DashboardOf stats))"

section \<open>Properties of the rounding\<close>

lemma roundEven_of_int: "roundEven (of_int m) = m"
  by (simp add: roundEven_def)

lemma floor_log2_eq:
  assumes "2 powr (of_int e) \<le> \<bar>x\<bar>" "\<bar>x\<bar> < 2 powr (of_int e + 1)"
  shows "\<lfloor>log 2 \<bar>x\<bar>\<rfloor> = e"
proof -
  have pos: "0 < \<bar>x\<bar>" using assms(1) powr_gt_zero [of 2 "of_int e"] by linarith
  have "of_int e \<le> log 2 \<bar>x\<bar>" using assms(1) pos by (simp add: le_log_iff)
  moreover have "log 2 \<bar>x\<bar> < of_int e + 1" using assms(2) pos by (simp add: log_less_iff)
  ultimately show ?thesis by (simp add: floor_eq_iff)
qed

lemma fl_eval:
  assumes "2 powr (of_int k + 52) \<le> \<bar>x\<bar>" "\<bar>x\<bar> < 2 powr (of_int k + 53)"
  shows "fl x = 2 powr (of_int k) * of_int (roundEven (x / 2 powr (of_int k)))"
proof -
  have "\<lfloor>log 2 \<bar>x\<bar>\<rfloor> = k + 52"
    by (rule floor_log2_eq) (use assms in \<open>simp_all add: add.commute add.left_commute\<close>)
  moreover have "x \<noteq> 0" using assms(1) powr_gt_zero [of 2 "of_int k + 52"] by auto
  ultimately show ?thesis by (simp add: fl_def)
qed

lemma fl_zero: "fl 0 = 0"
  by (simp add: fl_def)

lemma fl_int:
  assumes "\<bar>k\<bar> < 2 ^ 53"
  shows "fl (of_int k) = of_int k"
proof (cases "k = 0")
  case True
  then show ?thesis by (simp add: fl_def)
next
  case False
  define x :: real where "x = of_int k"
  define e where "e = \<lfloor>log 2 \<bar>x\<bar>\<rfloor>"
  have x1: "1 \<le> \<bar>x\<bar>"
  proof -
    have "1 \<le> \<bar>k\<bar>" using False by linarith
    then have "real_of_int 1 \<le> real_of_int \<bar>k\<bar>" by (simp only: of_int_le_iff)
    then show ?thesis by (simp add: x_def)
  qed
  have x2: "\<bar>x\<bar> < 2 ^ 53"
  proof -
    have "real_of_int \<bar>k\<bar> < real_of_int (2 ^ 53)" using assms by (simp only: of_int_less_iff)
    then show ?thesis by (simp add: x_def)
  qed
  have "0 \<le> log 2 \<bar>x\<bar>" using x1 by simp
  then have e0: "0 \<le> e" by (simp add: e_def)
  have "log 2 \<bar>x\<bar> < 53"
  proof -
    have "\<bar>x\<bar> < 2 powr 53" using x2 by simp
    then show ?thesis using x1 by (simp add: log_less_iff)
  qed
  then have e52: "e \<le> 52" by (simp add: e_def floor_le_iff)
  define d where "d = nat (52 - e)"
  have d: "real d = 52 - of_int e" using e52 by (simp add: d_def)
  have u: "(2::real) powr (of_int e - 52) = 1 / 2 ^ d"
  proof -
    have "(2::real) powr (of_int e - 52) = 2 powr (- real d)" using d by simp
    also have "\<dots> = 1 / 2 powr (real d)" by (simp add: powr_minus_divide)
    also have "\<dots> = 1 / 2 ^ d" by (simp add: powr_realpow)
    finally show ?thesis .
  qed
  have q: "x / (1 / 2 ^ d) = of_int (k * 2 ^ d)" by (simp add: x_def)
  have "fl x = 2 powr (of_int e - 52) * of_int (roundEven (x / 2 powr (of_int e - 52)))"
    using x1 by (auto simp: fl_def e_def)
  also have "\<dots> = (1 / 2 ^ d) * of_int (k * 2 ^ d)"
    by (simp only: u q roundEven_of_int)
  also have "\<dots> = x" by (simp add: x_def)
  finally show ?thesis by (simp add: x_def)
qed

lemma fl_one: "fl 1 = 1"
  using fl_int [of 1] by simp






lemma fl_scale:
  "fl (x * 2 powr of_int j) = fl x * 2 powr of_int j"
proof (cases "x = 0")
  case True
  then show ?thesis by (simp add: fl_def)
next
  case False
  then have ax: "0 < \<bar>x\<bar>" by simp
  have l: "log 2 \<bar>x * 2 powr of_int j\<bar> = log 2 \<bar>x\<bar> + of_int j"
    using ax by (simp add: abs_mult log_mult)
  have f: "\<lfloor>log 2 \<bar>x * 2 powr of_int j\<bar>\<rfloor> = \<lfloor>log 2 \<bar>x\<bar>\<rfloor> + j"
    unfolding l by simp
  have p: "(2::real) powr (of_int (\<lfloor>log 2 \<bar>x\<bar>\<rfloor> + j) - 52) =
      2 powr (of_int \<lfloor>log 2 \<bar>x\<bar>\<rfloor> - 52) * 2 powr of_int j"
    by (simp add: powr_add [symmetric] algebra_simps)
  have nz: "x * 2 powr of_int j \<noteq> 0" using False by simp
  have q: "x * 2 powr of_int j / ((2::real) powr (of_int \<lfloor>log 2 \<bar>x\<bar>\<rfloor> - 52) * 2 powr of_int j) =
      x / 2 powr (of_int \<lfloor>log 2 \<bar>x\<bar>\<rfloor> - 52)"
    by simp
  show ?thesis
    unfolding fl_def f p q using False nz by simp
qed



lemma fl_eval_scaled:
  fixes j :: nat
  assumes "2 ^ 52 \<le> \<bar>x\<bar> * 2 ^ j" "\<bar>x\<bar> * 2 ^ j < 2 ^ 53"
  shows "fl x = of_int (roundEven (x * 2 ^ j)) / 2 ^ j"
proof -
  have l: "2 powr (of_int 0 + 52) \<le> \<bar>x * 2 ^ j\<bar>"
    using assms(1) by (simp add: abs_mult)
  have u: "\<bar>x * 2 ^ j\<bar> < 2 powr (of_int 0 + 53)"
    using assms(2) by (simp add: abs_mult)
  have a: "fl (x * 2 ^ j) = of_int (roundEven (x * 2 ^ j))"
    using fl_eval [OF l u] by simp
  have m: "(2::real) powr of_int (- int j) = 1 / 2 ^ j"
    by (simp add: powr_minus_divide powr_realpow)
  have "fl (x * 2 ^ j * (1 / 2 ^ j)) = fl (x * 2 ^ j) * (1 / 2 ^ j)"
    using fl_scale [of "x * 2 ^ j" "- int j"] unfolding m .
  then show ?thesis using a by simp
qed

lemma fl_four_fifths: "fl (4 / 5) = 3602879701896397 / 4503599627370496"
  using fl_eval_scaled [of "4 / 5" 53] by (simp add: roundEven_def)

section \<open>Properties of the field splitter\<close>

lemma set_trim: "set (trim s) \<subseteq> set s"
proof
  fix x assume "x \<in> set (trim s)"
  then have "x \<in> set (dropWhile isSpace (rev (dropWhile isSpace s)))"
    by (simp add: trim_def)
  then have "x \<in> set (rev (dropWhile isSpace s))" by (rule set_dropWhileD)
  then have "x \<in> set (dropWhile isSpace s)" by simp
  then show "x \<in> set s" by (rule set_dropWhileD)
qed

lemma set_stripQuotes: "set (stripQuotes s) \<subseteq> set s"
proof (cases s)
  case Nil
  then show ?thesis by (simp add: stripQuotes_def)
next
  case (Cons c cs)
  define s1 where "s1 = (if c = dq then cs else c # cs)"
  have s1: "set s1 \<subseteq> set s" using Cons by (auto simp: s1_def)
  have "stripQuotes s = (if s1 \<noteq> [] \<and> last s1 = dq then butlast s1 else s1)"
    using Cons by (simp add: stripQuotes_def s1_def)
  moreover have "set (butlast s1) \<subseteq> set s1" by (auto dest: in_set_butlastD)
  ultimately show ?thesis using s1 by auto
qed

lemma set_collapseQuotes: "set (collapseQuotes s) \<subseteq> set s"
  by (induction s rule: collapseQuotes.induct) auto


lemma set_cleanField: "set (cleanField s) \<subseteq> set s"
  unfolding cleanField_def
  using set_collapseQuotes set_stripQuotes set_trim by (meson subset_trans)

lemma splitLoop_no_quote:
  assumes "dq \<notin> set current" "\<forall>f\<in>set result. dq \<notin> set f"
  shows "\<forall>f\<in>set (splitLoop cs result current q). dq \<notin> set f"
  using assms
proof (induction cs arbitrary: result current q)
  case Nil
  then show ?case using set_cleanField [of current] by auto
next
  case (Cons c cs)
  have clean: "dq \<notin> set (cleanField current)"
    using Cons.prems(1) set_cleanField [of current] by auto
  show ?case
  proof (cases "c = dq")
    case True
    then show ?thesis using Cons.IH [OF Cons.prems] by simp
  next
    case False
    show ?thesis
    proof (cases "c = CHR '','' \<and> \<not> q")
      case True
      have "\<forall>f\<in>set (splitLoop cs (result @ [cleanField current]) [] q). dq \<notin> set f"
        by (rule Cons.IH) (use Cons.prems(2) clean in auto)
      then show ?thesis using True False by simp
    next
      case no_comma: False
      have "\<forall>f\<in>set (splitLoop cs result (current @ [c]) q). dq \<notin> set f"
        by (rule Cons.IH) (use Cons.prems False in auto)
      then show ?thesis using no_comma False by auto
    qed
  qed
qed

text \<open>
  No field that \<open>splitCSVLine\<close> returns contains a double quote: the loop never appends one
  to \<open>current\<close>, so the two \<open>replace\<close> calls find nothing to do.
\<close>

lemma splitCSVLine_no_quote: "f \<in> set (splitCSVLine line) \<Longrightarrow> dq \<notin> set f"
  using splitLoop_no_quote [of "[]" "[]" line False] by (simp add: splitCSVLine_def)

text \<open>
  C4. The line \<open>a,"b,c",d\<close> splits into the three fields \<open>a\<close>, \<open>b,c\<close> and \<open>d\<close>: the comma
  inside the quotes is kept. The line \<open>"he said ""hi"""\<close> splits into the single field
  \<open>he said hi\<close>: every double quote is dropped, the escaped ones too, so the field is not
  \<open>he said "hi"\<close>.
\<close>

theorem splitCSVLine_examples:
  "splitCSVLine (''a,'' @ [dq] @ ''b,c'' @ [dq] @ '',d'') = [''a'', ''b,c'', ''d''] \<and>
   splitCSVLine ([dq] @ ''he said '' @ [dq, dq] @ ''hi'' @ [dq, dq, dq]) = [''he said hi''] \<and>
   splitCSVLine ([dq] @ ''he said '' @ [dq, dq] @ ''hi'' @ [dq, dq, dq])
     \<noteq> [''he said '' @ [dq] @ ''hi'' @ [dq]]"
  by (simp add: splitCSVLine_def dq_def cleanField_def trim_def isSpace_def stripQuotes_def)

section \<open>Properties of the substring search\<close>

lemma startsWith_iff: "startsWith s sub \<longleftrightarrow> (\<exists>post. s = sub @ post)"
proof
  assume "startsWith s sub"
  then have "s = sub @ drop (length sub) s"
    by (metis append_take_drop_id startsWith_def)
  then show "\<exists>post. s = sub @ post" ..
next
  assume "\<exists>post. s = sub @ post"
  then show "startsWith s sub" by (auto simp: startsWith_def)
qed

lemma includes_str_iff: "includes_str s sub \<longleftrightarrow> (\<exists>pre post. s = pre @ sub @ post)"
proof (induction s)
  case Nil
  show ?case by auto
next
  case (Cons c cs)
  show ?case
  proof
    assume "includes_str (c # cs) sub"
    then consider "startsWith (c # cs) sub" | "includes_str cs sub" by auto
    then show "\<exists>pre post. c # cs = pre @ sub @ post"
    proof cases
      case 1
      then obtain post where "c # cs = sub @ post" by (auto simp: startsWith_iff)
      then have "c # cs = [] @ sub @ post" by simp
      then show ?thesis by blast
    next
      case 2
      then obtain pre post where "cs = pre @ sub @ post" using Cons.IH by auto
      then have "c # cs = (c # pre) @ sub @ post" by simp
      then show ?thesis by blast
    qed
  next
    assume "\<exists>pre post. c # cs = pre @ sub @ post"
    then obtain pre post where eq: "c # cs = pre @ sub @ post" by auto
    show "includes_str (c # cs) sub"
    proof (cases pre)
      case Nil
      then have "startsWith (c # cs) sub" using eq by (auto simp: startsWith_iff)
      then show ?thesis by simp
    next
      case (Cons p ps)
      then have "cs = ps @ sub @ post" using eq by simp
      then have "includes_str cs sub" using Cons.IH by blast
      then show ?thesis by simp
    qed
  qed
qed

section \<open>Properties of header detection\<close>

lemma findIndex_None_iff: "findIndex P xs = None \<longleftrightarrow> (\<forall>x\<in>set xs. \<not> P x)"
  by (induction xs) (auto split: option.splits)

lemma findIndex_Some_iff:
  "findIndex P xs = Some i \<longleftrightarrow> i < length xs \<and> P (xs ! i) \<and> (\<forall>j<i. \<not> P (xs ! j))"
proof (induction xs arbitrary: i)
  case Nil
  show ?case by simp
next
  case (Cons x xs)
  show ?case
  proof (cases i)
    case 0
    then show ?thesis by (simp split: option.splits)
  next
    case (Suc k)
    have all: "(\<forall>j<Suc k. \<not> P ((x # xs) ! j)) \<longleftrightarrow> \<not> P x \<and> (\<forall>j<k. \<not> P (xs ! j))"
      by (simp add: All_less_Suc2)
    have "findIndex P (x # xs) = Some (Suc k) \<longleftrightarrow> \<not> P x \<and> findIndex P xs = Some k"
      by (simp split: option.splits)
    also have "\<dots> \<longleftrightarrow> \<not> P x \<and> k < length xs \<and> P (xs ! k) \<and> (\<forall>j<k. \<not> P (xs ! j))"
      by (simp only: Cons.IH)
    finally show ?thesis unfolding Suc all by (simp add: conj_ac)
  qed
qed

lemma findIndex_None_nth: "findIndex P xs = None \<longleftrightarrow> (\<forall>j<length xs. \<not> P (xs ! j))"
  by (simp add: findIndex_None_iff all_set_conv_all_nth)

lemma findIndex_take_Some:
  "findIndex P (take n xs) = Some i \<longleftrightarrow>
     i < n \<and> i < length xs \<and> P (xs ! i) \<and> (\<forall>j<i. \<not> P (xs ! j))"
proof -
  have "i < n \<Longrightarrow> (\<forall>j<i. \<not> P (take n xs ! j)) \<longleftrightarrow> (\<forall>j<i. \<not> P (xs ! j))"
    by auto
  then show ?thesis
    by (auto simp: findIndex_Some_iff)
qed

lemma findIndex_take_None:
  "findIndex P (take n xs) = None \<longleftrightarrow> (\<forall>j<min n (length xs). \<not> P (xs ! j))"
  by (simp add: findIndex_None_nth min.commute)

lemma first_index_unique:
  assumes "P (xs ! i)" "\<forall>j<i. \<not> P (xs ! j)" "P (xs ! k)" "\<forall>j<k. \<not> P (xs ! j)"
  shows "i = (k::nat)"
  using assms by (meson linorder_neqE_nat)

lemma findHeaderIndex_Some_iff:
  "findHeaderIndex lines = Some i \<longleftrightarrow>
     (i < 12 \<and> i < length lines \<and> isHeaderLine (lines ! i) \<and> (\<forall>j<i. \<not> isHeaderLine (lines ! j)))
     \<or> ((\<forall>j<min 12 (length lines). \<not> isHeaderLine (lines ! j)) \<and>
         i < length lines \<and> wideLine (lines ! i) \<and> (\<forall>j<i. \<not> wideLine (lines ! j)))"
proof (cases "findIndex isHeaderLine (take 12 lines)")
  case None
  then have no: "\<forall>j<min 12 (length lines). \<not> isHeaderLine (lines ! j)"
    by (simp only: findIndex_take_None)
  have "findHeaderIndex lines = findIndex wideLine lines"
    using None by (simp add: findHeaderIndex_def)
  moreover have "\<not> (i < 12 \<and> i < length lines \<and> isHeaderLine (lines ! i))"
    using no by auto
  ultimately show ?thesis using no by (auto simp: findIndex_Some_iff)
next
  case (Some k)
  then have k: "k < 12" "k < length lines" "isHeaderLine (lines ! k)"
      "\<forall>j<k. \<not> isHeaderLine (lines ! j)"
    by (simp_all add: findIndex_take_Some)
  have res: "findHeaderIndex lines = Some k"
    using Some by (simp add: findHeaderIndex_def)
  have notB: "\<not> (\<forall>j<min 12 (length lines). \<not> isHeaderLine (lines ! j))"
    using k(1,2,3) by (metis min_less_iff_conj)
  have uniq: "i = k" if "isHeaderLine (lines ! i)" "\<forall>j<i. \<not> isHeaderLine (lines ! j)"
    using that(1) that(2) k(3) k(4) by (rule first_index_unique)
  have "findHeaderIndex lines = Some i \<longleftrightarrow> i = k"
    using res by auto
  also have "i = k \<longleftrightarrow>
      (i < 12 \<and> i < length lines \<and> isHeaderLine (lines ! i) \<and> (\<forall>j<i. \<not> isHeaderLine (lines ! j)))"
  proof
    assume "i = k" then show "i < 12 \<and> i < length lines \<and> isHeaderLine (lines ! i) \<and> (\<forall>j<i. \<not> isHeaderLine (lines ! j))"
      using k by simp
  next
    assume "i < 12 \<and> i < length lines \<and> isHeaderLine (lines ! i) \<and> (\<forall>j<i. \<not> isHeaderLine (lines ! j))"
    then show "i = k" using uniq by simp
  qed
  finally have "findHeaderIndex lines = Some i \<longleftrightarrow>
      (i < 12 \<and> i < length lines \<and> isHeaderLine (lines ! i) \<and> (\<forall>j<i. \<not> isHeaderLine (lines ! j)))" .
  with notB show ?thesis by blast
qed

lemma findHeaderIndex_None_iff:
  "findHeaderIndex lines = None \<longleftrightarrow> (\<forall>j<length lines. \<not> wideLine (lines ! j))"
proof
  assume "findHeaderIndex lines = None"
  then have "findIndex wideLine lines = None"
    by (simp add: findHeaderIndex_def split: option.splits)
  then show "\<forall>j<length lines. \<not> wideLine (lines ! j)"
    by (simp only: findIndex_None_nth)
next
  assume no: "\<forall>j<length lines. \<not> wideLine (lines ! j)"
  then have "\<forall>j<min 12 (length lines). \<not> isHeaderLine (lines ! j)"
    by (simp add: isHeaderLine_def)
  then have "findIndex isHeaderLine (take 12 lines) = None"
    by (simp only: findIndex_take_None)
  moreover have "findIndex wideLine lines = None"
    using no by (simp only: findIndex_None_nth)
  ultimately show "findHeaderIndex lines = None"
    by (simp add: findHeaderIndex_def)
qed

lemma header_line_ok: "isHeaderLine ''Date,Count,Calorie,Distance,Speed,Source''"
  by code_simp

lemma header_line_fields:
  "splitCSVLine ''Date,Count,Calorie,Distance,Speed,Source'' =
     [''Date'', ''Count'', ''Calorie'', ''Distance'', ''Speed'', ''Source'']"
  by code_simp

lemma junk_then_header:
  assumes "\<not> isHeaderLine j1" "\<not> isHeaderLine j2" "\<not> isHeaderLine j3"
  shows "findHeaderIndex ([j1, j2, j3, ''Date,Count,Calorie,Distance,Speed,Source''] @ rows) = Some 3"
  using assms header_line_ok by (simp add: findHeaderIndex_def)


lemma junk_then_rows:
  assumes "\<not> isHeaderLine j1" "\<not> isHeaderLine j2" "\<not> isHeaderLine j3"
  shows "parseLines ([j1, j2, j3, ''Date,Count,Calorie,Distance,Speed,Source''] @ rows) =
     List.map_filter (parseRow [''Date'', ''Count'', ''Calorie'', ''Distance'', ''Speed'', ''Source'']) rows"
  using junk_then_header [OF assms, of rows]
  by (simp add: parseLines_def header_line_fields)

lemma isHeaderLine_iff:
  "isHeaderLine line \<longleftrightarrow>
      5 < length (splitCSVLine line) \<and>
      (\<exists>k\<in>set [''date'', ''time'', ''count'', ''efficiency'', ''duration'', ''step''].
         \<exists>pre post. toLowerCase line = pre @ k @ post)"
  by (simp add: isHeaderLine_def wideLine_def hasKeyword_def includes_str_iff)

lemma parseCSV_examples:
  "parseCSV (''junk,1,2'' @ CHR 0x0A # ''x'' @ CHR 0x0A # ''a,b,c,d,e,f'' @ CHR 0x0A #
        ''Date,Count,Calorie,Distance,Speed,Source'' @ CHR 0x0A #
        ''2024-01-01,100,5,70,1,-2'' @ CHR 0x0A # ''short,row'') =
     [[(''Date'', ''2024-01-01''), (''Count'', ''100''), (''Calorie'', ''5''),
       (''Distance'', ''70''), (''Speed'', ''1''), (''Source'', ''-2'')]] \<and>
   parseCSV (''a,b,c,d,e,f'' @ CHR 0x0A # ''1,2,3,4,5,6'') =
     [[(''a'', ''1''), (''b'', ''2''), (''c'', ''3''), (''d'', ''4''), (''e'', ''5''), (''f'', ''6'')]] \<and>
   parseCSV (''a,b'' @ CHR 0x0A # ''c,d'') = [] \<and>
   parseCSV ''Date,Count,Calorie,Distance,Speed,Source'' = [] \<and>
   findHeaderIndex (''a,b,c,d,e,f'' # replicate 10 ''x'' @ [''Date,Count,Calorie,Distance,Speed,Source'']) = Some 11 \<and>
   findHeaderIndex (''a,b,c,d,e,f'' # replicate 11 ''x'' @ [''Date,Count,Calorie,Distance,Speed,Source'']) = Some 0"
proof -
  have a: "parseCSV (''junk,1,2'' @ CHR 0x0A # ''x'' @ CHR 0x0A # ''a,b,c,d,e,f'' @ CHR 0x0A #
        ''Date,Count,Calorie,Distance,Speed,Source'' @ CHR 0x0A #
        ''2024-01-01,100,5,70,1,-2'' @ CHR 0x0A # ''short,row'') =
     [[(''Date'', ''2024-01-01''), (''Count'', ''100''), (''Calorie'', ''5''),
       (''Distance'', ''70''), (''Speed'', ''1''), (''Source'', ''-2'')]]"
    by code_simp
  have b: "parseCSV (''a,b,c,d,e,f'' @ CHR 0x0A # ''1,2,3,4,5,6'') =
     [[(''a'', ''1''), (''b'', ''2''), (''c'', ''3''), (''d'', ''4''), (''e'', ''5''), (''f'', ''6'')]]"
    by code_simp
  have c: "parseCSV (''a,b'' @ CHR 0x0A # ''c,d'') = []"
    by code_simp
  have d: "parseCSV ''Date,Count,Calorie,Distance,Speed,Source'' = []"
    by code_simp
  have e: "findHeaderIndex (''a,b,c,d,e,f'' # replicate 10 ''x'' @ [''Date,Count,Calorie,Distance,Speed,Source'']) = Some 11"
    by code_simp
  have f: "findHeaderIndex (''a,b,c,d,e,f'' # replicate 11 ''x'' @ [''Date,Count,Calorie,Distance,Speed,Source'']) = Some 0"
    by code_simp
  show ?thesis using a b c d e f by blast
qed

text \<open>
  C7. A line qualifies as header when it has more than 5 fields and its lowercase text
  contains one of \<open>date\<close>, \<open>time\<close>, \<open>count\<close>, \<open>efficiency\<close>, \<open>duration\<close>, \<open>step\<close>. The
  header is searched among the first 12 lines only: it is the first qualifying line
  there. When the first 12 lines hold no such line, the header is the first line of the
  whole text with more than 5 fields. When no line has more than 5 fields there is no
  header, and \<open>parseCSV\<close> returns the empty list; otherwise it returns the rows after the
  header. After three lines that do not qualify as header, the line
  \<open>Date,Count,Calorie,Distance,Speed,Source\<close> is the header (index 3), and the result
  holds only the rows after it. The examples are: a text whose third line has six
  fields and no keyword, before that header; a text with no keyword, whose first line
  has six fields; a text with no line of six fields; a text of one line; and the header
  at index 11 and at index 12 after a line of six fields without keyword.
\<close>

theorem parseCSV_header_detection:
  "(isHeaderLine line \<longleftrightarrow>
      5 < length (splitCSVLine line) \<and>
      (\<exists>k\<in>set [''date'', ''time'', ''count'', ''efficiency'', ''duration'', ''step''].
         \<exists>pre post. toLowerCase line = pre @ k @ post)) \<and>
   (wideLine line \<longleftrightarrow> 5 < length (splitCSVLine line)) \<and>
   (findHeaderIndex lines = Some i \<longleftrightarrow>
      (i < 12 \<and> i < length lines \<and> isHeaderLine (lines ! i) \<and>
         (\<forall>j<i. \<not> isHeaderLine (lines ! j)))
      \<or> ((\<forall>j<min 12 (length lines). \<not> isHeaderLine (lines ! j)) \<and>
          i < length lines \<and> wideLine (lines ! i) \<and> (\<forall>j<i. \<not> wideLine (lines ! j)))) \<and>
   (findHeaderIndex lines = None \<longleftrightarrow> (\<forall>j<length lines. \<not> wideLine (lines ! j))) \<and>
   (findHeaderIndex (splitNL csvText) = None \<longrightarrow> parseCSV csvText = []) \<and>
   (findHeaderIndex (splitNL csvText) = Some h \<and> 2 \<le> length (splitNL csvText) \<longrightarrow>
      parseCSV csvText =
        List.map_filter (parseRow (splitCSVLine (splitNL csvText ! h)))
          (drop (Suc h) (splitNL csvText))) \<and>
   (\<not> isHeaderLine j1 \<and> \<not> isHeaderLine j2 \<and> \<not> isHeaderLine j3 \<longrightarrow>
      findHeaderIndex ([j1, j2, j3, ''Date,Count,Calorie,Distance,Speed,Source''] @ rows) = Some 3 \<and>
      parseLines ([j1, j2, j3, ''Date,Count,Calorie,Distance,Speed,Source''] @ rows) =
        List.map_filter
          (parseRow [''Date'', ''Count'', ''Calorie'', ''Distance'', ''Speed'', ''Source'']) rows) \<and>
   (\<not> isHeaderLine j1 \<and> \<not> isHeaderLine j2 \<and> \<not> isHeaderLine j3 \<and>
    splitNL csvText = [j1, j2, j3, ''Date,Count,Calorie,Distance,Speed,Source''] @ rows \<longrightarrow>
      parseCSV csvText =
        List.map_filter
          (parseRow [''Date'', ''Count'', ''Calorie'', ''Distance'', ''Speed'', ''Source'']) rows) \<and>
   parseCSV (''junk,1,2'' @ CHR 0x0A # ''x'' @ CHR 0x0A # ''a,b,c,d,e,f'' @ CHR 0x0A #
        ''Date,Count,Calorie,Distance,Speed,Source'' @ CHR 0x0A #
        ''2024-01-01,100,5,70,1,-2'' @ CHR 0x0A # ''short,row'') =
     [[(''Date'', ''2024-01-01''), (''Count'', ''100''), (''Calorie'', ''5''),
       (''Distance'', ''70''), (''Speed'', ''1''), (''Source'', ''-2'')]] \<and>
   parseCSV (''a,b,c,d,e,f'' @ CHR 0x0A # ''1,2,3,4,5,6'') =
     [[(''a'', ''1''), (''b'', ''2''), (''c'', ''3''), (''d'', ''4''), (''e'', ''5''), (''f'', ''6'')]] \<and>
   parseCSV (''a,b'' @ CHR 0x0A # ''c,d'') = [] \<and>
   parseCSV ''Date,Count,Calorie,Distance,Speed,Source'' = [] \<and>
   findHeaderIndex (''a,b,c,d,e,f'' # replicate 10 ''x'' @ [''Date,Count,Calorie,Distance,Speed,Source'']) = Some 11 \<and>
   findHeaderIndex (''a,b,c,d,e,f'' # replicate 11 ''x'' @ [''Date,Count,Calorie,Distance,Speed,Source'']) = Some 0"
proof -
  have g1: "findHeaderIndex lines = Some i \<longleftrightarrow>
      (i < 12 \<and> i < length lines \<and> isHeaderLine (lines ! i) \<and>
         (\<forall>j<i. \<not> isHeaderLine (lines ! j)))
      \<or> ((\<forall>j<min 12 (length lines). \<not> isHeaderLine (lines ! j)) \<and>
          i < length lines \<and> wideLine (lines ! i) \<and> (\<forall>j<i. \<not> wideLine (lines ! j)))"
    by (rule findHeaderIndex_Some_iff)
  have g2: "findHeaderIndex lines = None \<longleftrightarrow> (\<forall>j<length lines. \<not> wideLine (lines ! j))"
    by (rule findHeaderIndex_None_iff)
  have g3: "findHeaderIndex (splitNL csvText) = None \<longrightarrow> parseCSV csvText = []"
    by (simp add: parseCSV_def parseLines_def)
  have g4: "findHeaderIndex (splitNL csvText) = Some h \<and> 2 \<le> length (splitNL csvText) \<longrightarrow>
      parseCSV csvText =
        List.map_filter (parseRow (splitCSVLine (splitNL csvText ! h)))
          (drop (Suc h) (splitNL csvText))"
    by (simp add: parseCSV_def parseLines_def)
  have g5: "\<not> isHeaderLine j1 \<and> \<not> isHeaderLine j2 \<and> \<not> isHeaderLine j3 \<longrightarrow>
      findHeaderIndex ([j1, j2, j3, ''Date,Count,Calorie,Distance,Speed,Source''] @ rows) = Some 3 \<and>
      parseLines ([j1, j2, j3, ''Date,Count,Calorie,Distance,Speed,Source''] @ rows) =
        List.map_filter
          (parseRow [''Date'', ''Count'', ''Calorie'', ''Distance'', ''Speed'', ''Source'']) rows"
  proof (intro impI conjI)
    assume j: "\<not> isHeaderLine j1 \<and> \<not> isHeaderLine j2 \<and> \<not> isHeaderLine j3"
    show "findHeaderIndex ([j1, j2, j3, ''Date,Count,Calorie,Distance,Speed,Source''] @ rows) = Some 3"
      using j by (intro junk_then_header) simp_all
    show "parseLines ([j1, j2, j3, ''Date,Count,Calorie,Distance,Speed,Source''] @ rows) =
        List.map_filter
          (parseRow [''Date'', ''Count'', ''Calorie'', ''Distance'', ''Speed'', ''Source'']) rows"
      using j by (intro junk_then_rows) simp_all
  qed
  have g6: "\<not> isHeaderLine j1 \<and> \<not> isHeaderLine j2 \<and> \<not> isHeaderLine j3 \<and>
    splitNL csvText = [j1, j2, j3, ''Date,Count,Calorie,Distance,Speed,Source''] @ rows \<longrightarrow>
      parseCSV csvText =
        List.map_filter
          (parseRow [''Date'', ''Count'', ''Calorie'', ''Distance'', ''Speed'', ''Source'']) rows"
  proof
    assume j: "\<not> isHeaderLine j1 \<and> \<not> isHeaderLine j2 \<and> \<not> isHeaderLine j3 \<and>
      splitNL csvText = [j1, j2, j3, ''Date,Count,Calorie,Distance,Speed,Source''] @ rows"
    then have "parseLines ([j1, j2, j3, ''Date,Count,Calorie,Distance,Speed,Source''] @ rows) =
        List.map_filter
          (parseRow [''Date'', ''Count'', ''Calorie'', ''Distance'', ''Speed'', ''Source'']) rows"
      by (intro junk_then_rows) simp_all
    then show "parseCSV csvText =
        List.map_filter
          (parseRow [''Date'', ''Count'', ''Calorie'', ''Distance'', ''Speed'', ''Source'']) rows"
      using j unfolding parseCSV_def by simp
  qed
  have w: "wideLine line \<longleftrightarrow> 5 < length (splitCSVLine line)"
    by (simp add: wideLine_def)
  show ?thesis
    using isHeaderLine_iff [of line] w g1 g2 g3 g4 g5 g6 parseCSV_examples by blast
qed

theorem parseCSV_header_detection_witness:
  "\<not> isHeaderLine ''junk,1,2'' \<and> \<not> isHeaderLine ''x'' \<and> \<not> isHeaderLine ''a,b,c,d,e,f'' \<and>
   wideLine ''a,b,c,d,e,f'' \<and>
   splitNL (''junk,1,2'' @ CHR 0x0A # ''x'' @ CHR 0x0A # ''a,b,c,d,e,f'' @ CHR 0x0A #
        ''Date,Count,Calorie,Distance,Speed,Source'' @ CHR 0x0A #
        ''2024-01-01,100,5,70,1,-2'' @ CHR 0x0A # ''short,row'') =
     [''junk,1,2'', ''x'', ''a,b,c,d,e,f'', ''Date,Count,Calorie,Distance,Speed,Source''] @
     [''2024-01-01,100,5,70,1,-2'', ''short,row''] \<and>
   findHeaderIndex ([''junk,1,2'', ''x'', ''a,b,c,d,e,f'', ''Date,Count,Calorie,Distance,Speed,Source''] @
     [''2024-01-01,100,5,70,1,-2'', ''short,row'']) = Some 3 \<and>
   parseCSV (''junk,1,2'' @ CHR 0x0A # ''x'' @ CHR 0x0A # ''a,b,c,d,e,f'' @ CHR 0x0A #
        ''Date,Count,Calorie,Distance,Speed,Source'' @ CHR 0x0A #
        ''2024-01-01,100,5,70,1,-2'' @ CHR 0x0A # ''short,row'') =
     [[(''Date'', ''2024-01-01''), (''Count'', ''100''), (''Calorie'', ''5''),
       (''Distance'', ''70''), (''Speed'', ''1''), (''Source'', ''-2'')]]"
proof -
  have j: "\<not> isHeaderLine ''junk,1,2'' \<and> \<not> isHeaderLine ''x'' \<and>
      \<not> isHeaderLine ''a,b,c,d,e,f''"
    by code_simp
  have wd: "wideLine ''a,b,c,d,e,f''" by code_simp
  have s: "splitNL (''junk,1,2'' @ CHR 0x0A # ''x'' @ CHR 0x0A # ''a,b,c,d,e,f'' @ CHR 0x0A #
        ''Date,Count,Calorie,Distance,Speed,Source'' @ CHR 0x0A #
        ''2024-01-01,100,5,70,1,-2'' @ CHR 0x0A # ''short,row'') =
     [''junk,1,2'', ''x'', ''a,b,c,d,e,f'', ''Date,Count,Calorie,Distance,Speed,Source''] @
     [''2024-01-01,100,5,70,1,-2'', ''short,row'']"
    by code_simp
  have r: "List.map_filter
      (parseRow [''Date'', ''Count'', ''Calorie'', ''Distance'', ''Speed'', ''Source''])
      [''2024-01-01,100,5,70,1,-2'', ''short,row''] =
     [[(''Date'', ''2024-01-01''), (''Count'', ''100''), (''Calorie'', ''5''),
       (''Distance'', ''70''), (''Speed'', ''1''), (''Source'', ''-2'')]]"
    by code_simp
  from parseCSV_header_detection
    [of _ _ _ "(''junk,1,2'' @ CHR 0x0A # ''x'' @ CHR 0x0A # ''a,b,c,d,e,f'' @ CHR 0x0A #
        ''Date,Count,Calorie,Distance,Speed,Source'' @ CHR 0x0A #
        ''2024-01-01,100,5,70,1,-2'' @ CHR 0x0A # ''short,row'')" _
      "''junk,1,2''" "''x''" "''a,b,c,d,e,f''" "[''2024-01-01,100,5,70,1,-2'', ''short,row'']"]
  have "findHeaderIndex ([''junk,1,2'', ''x'', ''a,b,c,d,e,f'', ''Date,Count,Calorie,Distance,Speed,Source'']
          @ [''2024-01-01,100,5,70,1,-2'', ''short,row'']) = Some 3"
    and "parseCSV (''junk,1,2'' @ CHR 0x0A # ''x'' @ CHR 0x0A # ''a,b,c,d,e,f'' @ CHR 0x0A #
        ''Date,Count,Calorie,Distance,Speed,Source'' @ CHR 0x0A #
        ''2024-01-01,100,5,70,1,-2'' @ CHR 0x0A # ''short,row'') =
        List.map_filter
          (parseRow [''Date'', ''Count'', ''Calorie'', ''Distance'', ''Speed'', ''Source''])
          [''2024-01-01,100,5,70,1,-2'', ''short,row'']"
    using j s by blast+
  then show ?thesis using j wd s r by simp
qed

section \<open>Properties of the correlation\<close>
































section \<open>Properties of the circular average\<close>














section \<open>Properties of the clock format\<close>

lemma digitChar_not_dash: "d < 10 \<Longrightarrow> digitChar d \<noteq> CHR ''-''"
proof -
  assume "d < 10"
  then have "d \<in> {0, 1, 2, 3, 4, 5, 6, 7, 8, 9}" by auto
  then show ?thesis by (auto simp: digitChar_def)
qed

lemma padStart2_two_digits:
  assumes "k < 100"
  shows "padStart2 (toStringInt (int k)) = [digitChar (k div 10), digitChar (k mod 10)]"
proof (cases "k < 10")
  case True
  then have "digitsOf k = [digitChar k]" by (simp add: digitsOf.simps)
  moreover have "digitChar 0 = CHR ''0''" by (simp add: digitChar_def)
  ultimately show ?thesis using True by (simp add: padStart2_def toStringInt_def)
next
  case False
  then have "k div 10 < 10" using assms by simp
  then have "digitsOf (k div 10) = [digitChar (k div 10)]" by (simp add: digitsOf.simps)
  then have "digitsOf k = [digitChar (k div 10), digitChar (k mod 10)]"
    using False by (subst digitsOf.simps) simp
  then show ?thesis by (simp add: padStart2_def toStringInt_def)
qed

lemma hour_minute_fields:
  assumes "0 < x" "x < 1440"
  shows "0 \<le> \<lfloor>x / 60\<rfloor>" "\<lfloor>x / 60\<rfloor> < 24" "js_rem_int \<lfloor>x / 60\<rfloor> 24 = \<lfloor>x / 60\<rfloor>"
    "js_rem x 60 = x - 60 * of_int \<lfloor>x / 60\<rfloor>"
    "0 \<le> js_round (js_rem x 60)" "js_round (js_rem x 60) \<le> 60"
proof -
  show h0: "0 \<le> \<lfloor>x / 60\<rfloor>" using assms(1) by simp
  have "x / 60 < 24" using assms(2) by simp
  then show h1: "\<lfloor>x / 60\<rfloor> < 24" by (simp add: floor_less_iff)
  have "0 \<le> (of_int \<lfloor>x / 60\<rfloor> :: real) / 24" using h0 by simp
  moreover have "(of_int \<lfloor>x / 60\<rfloor> :: real) / 24 < 1" using h1 by simp
  ultimately have "\<lfloor>(of_int \<lfloor>x / 60\<rfloor> :: real) / 24\<rfloor> = 0" by (simp add: floor_eq_iff)
  then show "js_rem_int \<lfloor>x / 60\<rfloor> 24 = \<lfloor>x / 60\<rfloor>"
    using h0 by (simp add: js_rem_int_def js_trunc_def)
  show r: "js_rem x 60 = x - 60 * of_int \<lfloor>x / 60\<rfloor>"
    using assms(1) by (simp add: js_rem_def js_trunc_def)
  have lo: "of_int \<lfloor>x / 60\<rfloor> \<le> x / 60" by (rule of_int_floor_le)
  have hi: "x / 60 < of_int \<lfloor>x / 60\<rfloor> + 1" by linarith
  have "0 \<le> js_rem x 60" "js_rem x 60 < 60" unfolding r using lo hi by linarith+
  then show "0 \<le> js_round (js_rem x 60)" "js_round (js_rem x 60) \<le> 60"
    unfolding js_round_def by (simp_all add: le_floor_iff floor_le_iff)
qed

lemma formatToHHmm_clock:
  assumes "0 < x" "x < 1440"
  shows "formatToHHmm x =
     [digitChar (nat \<lfloor>x / 60\<rfloor> div 10), digitChar (nat \<lfloor>x / 60\<rfloor> mod 10), CHR '':'',
      digitChar (nat (js_round (x - 60 * of_int \<lfloor>x / 60\<rfloor>)) div 10),
      digitChar (nat (js_round (x - 60 * of_int \<lfloor>x / 60\<rfloor>)) mod 10)]"
proof -
  note f = hour_minute_fields [OF assms]
  have h: "padStart2 (toStringInt \<lfloor>x / 60\<rfloor>) =
      [digitChar (nat \<lfloor>x / 60\<rfloor> div 10), digitChar (nat \<lfloor>x / 60\<rfloor> mod 10)]"
  proof -
    have "nat \<lfloor>x / 60\<rfloor> < 100" using f(1) f(2) by linarith
    moreover have "int (nat \<lfloor>x / 60\<rfloor>) = \<lfloor>x / 60\<rfloor>" using f(1) by linarith
    ultimately show ?thesis using padStart2_two_digits [of "nat \<lfloor>x / 60\<rfloor>"] by metis
  qed
  have m: "padStart2 (toStringInt (js_round (js_rem x 60))) =
      [digitChar (nat (js_round (js_rem x 60)) div 10), digitChar (nat (js_round (js_rem x 60)) mod 10)]"
  proof -
    have "nat (js_round (js_rem x 60)) < 100" using f(5) f(6) by linarith
    moreover have "int (nat (js_round (js_rem x 60))) = js_round (js_rem x 60)"
      using f(5) by linarith
    ultimately show ?thesis
      using padStart2_two_digits [of "nat (js_round (js_rem x 60))"] by metis
  qed
  have "formatToHHmm x = padStart2 (toStringInt \<lfloor>x / 60\<rfloor>) @ '':'' @
          padStart2 (toStringInt (js_round (js_rem x 60)))"
    using assms(1) by (simp add: formatToHHmm_def Let_def f(3))
  then have "formatToHHmm x =
     [digitChar (nat \<lfloor>x / 60\<rfloor> div 10), digitChar (nat \<lfloor>x / 60\<rfloor> mod 10), CHR '':'',
      digitChar (nat (js_round (js_rem x 60)) div 10),
      digitChar (nat (js_round (js_rem x 60)) mod 10)]"
    by (simp only: h m append.simps)
  then show ?thesis by (simp only: f(4))
qed

lemma formatToHHmm_not_placeholder:
  assumes "0 < x" "x < 1440"
  shows "formatToHHmm x \<noteq> ''--:--''"
proof -
  note f = hour_minute_fields [OF assms]
  have "nat \<lfloor>x / 60\<rfloor> < 100" using f(1) f(2) by linarith
  then have "nat \<lfloor>x / 60\<rfloor> div 10 < 10" by simp
  then have "digitChar (nat \<lfloor>x / 60\<rfloor> div 10) \<noteq> CHR ''-''" by (rule digitChar_not_dash)
  then show ?thesis unfolding formatToHHmm_clock [OF assms] by simp
qed

lemma formatToHHmm_examples:
  "formatToHHmm (239 / 4) = ''00:60'' \<and>
   formatToHHmm (4201014027406541 / 70368744177664) = ''00:60'' \<and>
   formatToHHmm (2879 / 2) = ''23:60'' \<and>
   formatToHHmm 1430 = ''23:50'' \<and>
   formatToHHmm 1440 = ''00:00''"
proof -
  have a: "formatToHHmm (239 / 4) = ''00:60''"
    using formatToHHmm_clock [of "239 / 4"] by (simp add: js_round_def digitChar_def)
  have b: "formatToHHmm (4201014027406541 / 70368744177664) = ''00:60''"
    using formatToHHmm_clock [of "4201014027406541 / 70368744177664"]
    by (simp add: js_round_def digitChar_def)
  have c: "formatToHHmm (2879 / 2) = ''23:60''"
    using formatToHHmm_clock [of "2879 / 2"] by (simp add: js_round_def digitChar_def)
  have d: "formatToHHmm 1430 = ''23:50''"
    using formatToHHmm_clock [of 1430] by (simp add: js_round_def digitChar_def)
  have e: "formatToHHmm 1440 = ''00:00''"
    by (simp add: formatToHHmm_def Let_def js_rem_int_def js_rem_def js_trunc_def js_round_def
        padStart2_def toStringInt_def digitsOf.simps digitChar_def)
  show ?thesis using a b c d e by simp
qed

text \<open>
  C10. \<open>formatToHHmm\<close> maps 0 to the placeholder \<open>--:--\<close>, and the circular average of no
  samples is 0, so an average of exactly 0 is shown like missing data. A value strictly
  between 0 and 1440 is never shown as the placeholder: it is shown as two zero-padded
  two-digit fields separated by a colon, the hour \<open>\<lfloor>minutes / 60\<rfloor>\<close> (at most 23) and the
  rounded minute. The minute field is not a clock minute, though: \<open>Math.round\<close> is applied
  after \<open>% 60\<close> and nothing is carried into the hour, so a value whose minute part is at
  least 59.5 is shown with the minute 60. The values 59.75, 59.7 (the double) and 1439.5
  are shown as \<open>00:60\<close>, \<open>00:60\<close> and \<open>23:60\<close>.
\<close>

theorem formatToHHmm_minute_sixty:
  "formatToHHmm 0 = ''--:--'' \<and>
   formatToHHmm (calculateCircularAverage lib []) = ''--:--'' \<and>
   formatToHHmm (239 / 4) = ''00:60'' \<and>
   formatToHHmm (4201014027406541 / 70368744177664) = ''00:60'' \<and>
   formatToHHmm (2879 / 2) = ''23:60'' \<and>
   formatToHHmm 1430 = ''23:50'' \<and>
   formatToHHmm 1440 = ''00:00'' \<and>
   (0 < minutes \<and> minutes < 1440 \<longrightarrow>
      formatToHHmm minutes \<noteq> ''--:--'' \<and>
      nat \<lfloor>minutes / 60\<rfloor> < 24 \<and>
      nat (js_round (minutes - 60 * of_int \<lfloor>minutes / 60\<rfloor>)) \<le> 60 \<and>
      formatToHHmm minutes =
        [digitChar (nat \<lfloor>minutes / 60\<rfloor> div 10), digitChar (nat \<lfloor>minutes / 60\<rfloor> mod 10),
         CHR '':'',
         digitChar (nat (js_round (minutes - 60 * of_int \<lfloor>minutes / 60\<rfloor>)) div 10),
         digitChar (nat (js_round (minutes - 60 * of_int \<lfloor>minutes / 60\<rfloor>)) mod 10)]) \<and>
   (0 < minutes \<and> minutes < 1440 \<and> 119 / 2 \<le> minutes - 60 * of_int \<lfloor>minutes / 60\<rfloor> \<longrightarrow>
      formatToHHmm minutes =
        [digitChar (nat \<lfloor>minutes / 60\<rfloor> div 10), digitChar (nat \<lfloor>minutes / 60\<rfloor> mod 10),
         CHR '':'', CHR ''6'', CHR ''0''])"
proof -
  have z: "formatToHHmm 0 = ''--:--''" by (simp add: formatToHHmm_def)
  have e: "formatToHHmm (calculateCircularAverage lib []) = ''--:--''"
    by (simp add: calculateCircularAverage_def formatToHHmm_def)
  have g: "0 < minutes \<and> minutes < 1440 \<longrightarrow>
      formatToHHmm minutes \<noteq> ''--:--'' \<and>
      nat \<lfloor>minutes / 60\<rfloor> < 24 \<and>
      nat (js_round (minutes - 60 * of_int \<lfloor>minutes / 60\<rfloor>)) \<le> 60 \<and>
      formatToHHmm minutes =
        [digitChar (nat \<lfloor>minutes / 60\<rfloor> div 10), digitChar (nat \<lfloor>minutes / 60\<rfloor> mod 10),
         CHR '':'',
         digitChar (nat (js_round (minutes - 60 * of_int \<lfloor>minutes / 60\<rfloor>)) div 10),
         digitChar (nat (js_round (minutes - 60 * of_int \<lfloor>minutes / 60\<rfloor>)) mod 10)]"
  proof (intro impI conjI)
    assume "0 < minutes \<and> minutes < 1440"
    then have r: "0 < minutes" "minutes < 1440" by simp_all
    note f = hour_minute_fields [OF r]
    show "formatToHHmm minutes \<noteq> ''--:--''" using r by (rule formatToHHmm_not_placeholder)
    show "nat \<lfloor>minutes / 60\<rfloor> < 24" using f(1) f(2) by linarith
    show "nat (js_round (minutes - 60 * of_int \<lfloor>minutes / 60\<rfloor>)) \<le> 60"
      using f(6) unfolding f(4) by linarith
    show "formatToHHmm minutes =
        [digitChar (nat \<lfloor>minutes / 60\<rfloor> div 10), digitChar (nat \<lfloor>minutes / 60\<rfloor> mod 10),
         CHR '':'',
         digitChar (nat (js_round (minutes - 60 * of_int \<lfloor>minutes / 60\<rfloor>)) div 10),
         digitChar (nat (js_round (minutes - 60 * of_int \<lfloor>minutes / 60\<rfloor>)) mod 10)]"
      using r by (rule formatToHHmm_clock)
  qed
  have s: "0 < minutes \<and> minutes < 1440 \<and>
      119 / 2 \<le> minutes - 60 * of_int \<lfloor>minutes / 60\<rfloor> \<longrightarrow>
      formatToHHmm minutes =
        [digitChar (nat \<lfloor>minutes / 60\<rfloor> div 10), digitChar (nat \<lfloor>minutes / 60\<rfloor> mod 10),
         CHR '':'', CHR ''6'', CHR ''0'']"
  proof
    assume h: "0 < minutes \<and> minutes < 1440 \<and>
      119 / 2 \<le> minutes - 60 * of_int \<lfloor>minutes / 60\<rfloor>"
    then have r: "0 < minutes" "minutes < 1440" by simp_all
    have lo: "119 / 2 \<le> minutes - 60 * of_int \<lfloor>minutes / 60\<rfloor>" using h by simp
    have "minutes / 60 < of_int \<lfloor>minutes / 60\<rfloor> + 1" by linarith
    then have hi: "minutes - 60 * of_int \<lfloor>minutes / 60\<rfloor> < 60" by linarith
    have "js_round (minutes - 60 * of_int \<lfloor>minutes / 60\<rfloor>) = 60"
      unfolding js_round_def using lo hi by (simp add: floor_eq_iff)
    then have m: "nat (js_round (minutes - 60 * of_int \<lfloor>minutes / 60\<rfloor>)) = 60" by simp
    show "formatToHHmm minutes =
        [digitChar (nat \<lfloor>minutes / 60\<rfloor> div 10), digitChar (nat \<lfloor>minutes / 60\<rfloor> mod 10),
         CHR '':'', CHR ''6'', CHR ''0'']"
      unfolding formatToHHmm_clock [OF r] m by (simp add: digitChar_def)
  qed
  show ?thesis using z e formatToHHmm_examples g s by blast
qed

theorem formatToHHmm_minute_sixty_witness:
  "(0::real) < 239 / 4 \<and> (239 / 4 :: real) < 1440 \<and>
   (119 / 2 :: real) \<le> 239 / 4 - 60 * of_int \<lfloor>239 / 4 / 60 :: real\<rfloor> \<and>
   formatToHHmm (239 / 4) = ''00:60'' \<and> formatToHHmm (239 / 4) \<noteq> ''--:--''"
proof -
  have h: "(0::real) < 239 / 4 \<and> (239 / 4 :: real) < 1440 \<and>
      (119 / 2 :: real) \<le> 239 / 4 - 60 * of_int \<lfloor>239 / 4 / 60 :: real\<rfloor>"
    by simp
  from formatToHHmm_minute_sixty [of lib "239 / 4"] h
  have "formatToHHmm (239 / 4) \<noteq> ''--:--''"
    and "formatToHHmm (239 / 4) =
        [digitChar (nat \<lfloor>239 / 4 / 60 :: real\<rfloor> div 10),
         digitChar (nat \<lfloor>239 / 4 / 60 :: real\<rfloor> mod 10), CHR '':'', CHR ''6'', CHR ''0'']"
    by blast+
  then show ?thesis using h by (simp add: digitChar_def)
qed

section \<open>Properties of the asleep time\<close>







section \<open>Properties of the sleep dedup\<close>

lemma mset_insertBy: "mset (insertBy cmp x ys) = add_mset x (mset ys)"
  by (induction ys) simp_all

lemma mset_sortBy: "mset (sortBy cmp xs) = mset xs"
  by (induction xs) (simp_all add: sortBy_def mset_insertBy)

lemma set_insertBy: "set (insertBy cmp x ys) = insert x (set ys)"
  by (induction ys) auto

lemma sorted_insertBy:
  assumes total: "\<And>a b. cmp a b \<le> 0 \<or> cmp b a \<le> 0"
    and trans: "\<And>a b c. cmp a b \<le> 0 \<Longrightarrow> cmp b c \<le> 0 \<Longrightarrow> cmp a c \<le> 0"
    and "sorted_wrt (\<lambda>a b. cmp a b \<le> 0) ys"
  shows "sorted_wrt (\<lambda>a b. cmp a b \<le> 0) (insertBy cmp x ys)"
  using assms(3)
proof (induction ys)
  case Nil
  show ?case by simp
next
  case (Cons y ys)
  show ?case
  proof (cases "cmp x y \<le> 0")
    case True
    have "\<forall>z\<in>set ys. cmp x z \<le> 0"
      using Cons.prems True trans by auto
    then show ?thesis using True Cons.prems by simp
  next
    case False
    then have yx: "cmp y x \<le> 0" using total [of x y] by simp
    have "sorted_wrt (\<lambda>a b. cmp a b \<le> 0) (insertBy cmp x ys)"
      using Cons.IH Cons.prems by simp
    moreover have "\<forall>z\<in>set (insertBy cmp x ys). cmp y z \<le> 0"
      using Cons.prems yx by (simp add: set_insertBy)
    ultimately show ?thesis using False by simp
  qed
qed

lemma sorted_sortBy:
  assumes total: "\<And>a b. cmp a b \<le> 0 \<or> cmp b a \<le> 0"
    and trans: "\<And>a b c. cmp a b \<le> 0 \<Longrightarrow> cmp b c \<le> 0 \<Longrightarrow> cmp a c \<le> 0"
  shows "sorted_wrt (\<lambda>a b. cmp a b \<le> 0) (sortBy cmp xs)"
proof (induction xs)
  case Nil
  show ?case by (simp add: sortBy_def)
next
  case (Cons x xs)
  have "sortBy cmp (x # xs) = insertBy cmp x (sortBy cmp xs)" by (simp add: sortBy_def)
  then show ?case using sorted_insertBy [OF total trans Cons.IH] by simp
qed

lemma compareSleep_le_iff:
  "compareSleep a b \<le> 0 \<longleftrightarrow>
     (s_isCombined b \<longrightarrow> s_isCombined a) \<and>
     (s_isCombined a = s_isCombined b \<longrightarrow> s_duration b \<le> s_duration a)"
  by (auto simp: compareSleep_def)

lemma compareSleep_total: "compareSleep a b \<le> 0 \<or> compareSleep b a \<le> 0"
  unfolding compareSleep_le_iff by auto

lemma compareSleep_trans:
  "compareSleep a b \<le> 0 \<Longrightarrow> compareSleep b c \<le> 0 \<Longrightarrow> compareSleep a c \<le> 0"
  unfolding compareSleep_le_iff by auto

lemma sorted_sortBy_compareSleep:
  "sorted_wrt (\<lambda>a b. compareSleep a b \<le> 0) (sortBy compareSleep xs)"
  by (rule sorted_sortBy) (rule compareSleep_total, rule compareSleep_trans)

lemma overlap_card:
  "overlapDuration record kept =
     fl (real (card ({s_start record..<s_end record} \<inter> {s_start kept..<s_end kept})) / 60000)"
proof -
  define A where "A = max (s_start record) (s_start kept)"
  define B where "B = min (s_end record) (s_end kept)"
  have "{s_start record..<s_end record} \<inter> {s_start kept..<s_end kept} = {A..<B}"
    by (auto simp: A_def B_def)
  then have "card ({s_start record..<s_end record} \<inter> {s_start kept..<s_end kept}) = nat (B - A)"
    by simp
  moreover have "real (nat (B - A)) = of_int (max 0 (B - A))"
    by (cases "0 \<le> B - A") (simp_all add: max_def)
  ultimately show ?thesis by (simp add: overlapDuration_def Let_def A_def B_def)
qed

lemma isEncapsulated_iff:
  "isEncapsulated keptSleep record \<longleftrightarrow>
     (\<exists>kept\<in>set keptSleep. fl (overlapDuration record kept / s_duration record) > fl (8 / 10))"
  by (simp add: isEncapsulated_def list_ex_iff)

lemma fl_numeral: "\<bar>numeral w :: int\<bar> < 2 ^ 53 \<Longrightarrow> fl (numeral w) = numeral w"
  using fl_int [of "numeral w"] by simp

lemma fl_nine_tenths: "fl (9 / 10) = 8106479329266893 / 9007199254740992"
  using fl_eval_scaled [of "9 / 10" 53] by (simp add: roundEven_def)

lemma fl_five_sixths: "fl (5 / 6) = 7505999378950827 / 9007199254740992"
  using fl_eval_scaled [of "5 / 6" 53] by (simp add: roundEven_def)

lemma set_keepStep: "set (keepStep K r) \<subseteq> insert r (set K)" "set K \<subseteq> set (keepStep K r)"
  by (auto simp: keepStep_def)

lemma set_foldl_keepStep_upper: "set (foldl keepStep K ys) \<subseteq> set K \<union> set ys"
proof (induction ys arbitrary: K)
  case Nil
  show ?case by simp
next
  case (Cons y ys)
  have "set (foldl keepStep (keepStep K y) ys) \<subseteq> set (keepStep K y) \<union> set ys"
    by (rule Cons.IH)
  then show ?case using set_keepStep(1) [of K y] by auto
qed

lemma kept_when_added:
  assumes "n \<in> set (foldl keepStep K ys)" "n \<notin> set K"
  shows "\<exists>pre post. ys = pre @ n # post \<and> \<not> isEncapsulated (foldl keepStep K pre) n"
  using assms
proof (induction ys arbitrary: K)
  case Nil
  then show ?case by simp
next
  case (Cons y ys)
  show ?case
  proof (cases "n \<in> set (keepStep K y)")
    case True
    then have "n = y" "\<not> isEncapsulated K n"
      using Cons.prems(2) by (auto simp: keepStep_def split: if_splits)
    then have "y # ys = [] @ n # ys \<and> \<not> isEncapsulated (foldl keepStep K []) n" by simp
    then show ?thesis by blast
  next
    case False
    from Cons.prems(1) have "n \<in> set (foldl keepStep (keepStep K y) ys)" by simp
    from Cons.IH [OF this False] obtain pre post where
      "ys = pre @ n # post" "\<not> isEncapsulated (foldl keepStep (keepStep K y) pre) n"
      by blast
    then have "y # ys = (y # pre) @ n # post \<and> \<not> isEncapsulated (foldl keepStep K (y # pre)) n"
      by simp
    then show ?thesis by blast
  qed
qed

lemma combined_wins:
  assumes c: "s_isCombined c" and n: "\<not> s_isCombined n"
    and ov: "fl (overlapDuration n c / s_duration n) > fl (8 / 10)"
    and kept: "c \<in> set (dedupSleep cs)"
  shows "n \<notin> set (dedupSleep cs)"
proof
  assume "n \<in> set (dedupSleep cs)"
  then have "n \<in> set (foldl keepStep [] (sortBy compareSleep cs))" by (simp add: dedupSleep_def)
  from kept_when_added [OF this] obtain pre post where
    split: "sortBy compareSleep cs = pre @ n # post"
    and free: "\<not> isEncapsulated (foldl keepStep [] pre) n"
    by auto
  have "sorted_wrt (\<lambda>a b. compareSleep a b \<le> 0) (pre @ n # post)"
    using sorted_sortBy_compareSleep [of cs] by (simp only: split)
  then have "\<forall>x\<in>set post. compareSleep n x \<le> 0"
    by (simp add: sorted_wrt_append)
  then have post: "\<forall>x\<in>set (n # post). \<not> s_isCombined x"
    using n by (auto simp: compareSleep_le_iff)
  have "dedupSleep cs = foldl keepStep (foldl keepStep [] pre) (n # post)"
    by (simp add: dedupSleep_def split)
  then have "set (dedupSleep cs) \<subseteq> set (foldl keepStep [] pre) \<union> set (n # post)"
    using set_foldl_keepStep_upper [of "foldl keepStep [] pre" "n # post"] by simp
  then have "c \<in> set (foldl keepStep [] pre)"
    using kept c post by auto
  then have "isEncapsulated (foldl keepStep [] pre) n"
    using ov unfolding isEncapsulated_iff by blast
  with free show False by simp
qed

lemma dedup_pair:
  assumes c: "s_isCombined c" and n: "\<not> s_isCombined n"
    and ov: "fl (overlapDuration n c / s_duration n) > fl (8 / 10)"
  shows "dedupSleep [c, n] = [c]" "dedupSleep [n, c] = [c]"
proof -
  have s1: "sortBy compareSleep [c, n] = [c, n]"
    using c n by (simp add: sortBy_def compareSleep_def)
  have s2: "sortBy compareSleep [n, c] = [c, n]"
    using c n by (simp add: sortBy_def compareSleep_def)
  have k1: "keepStep [] c = [c]" by (simp add: keepStep_def isEncapsulated_def)
  have "isEncapsulated [c] n" using ov by (simp add: isEncapsulated_iff)
  then have k2: "keepStep [c] n = [c]" by (simp add: keepStep_def)
  show "dedupSleep [c, n] = [c]" by (simp add: dedupSleep_def s1 k1 k2)
  show "dedupSleep [n, c] = [c]" by (simp add: dedupSleep_def s2 k1 k2)
qed

text \<open>
  C1 (amended). The sort keeps the candidates and orders them with the combined sessions
  first and, among sessions of the same kind, by descending asleep duration. The dedup
  runs over that order, and a candidate with a positive asleep duration is rejected
  exactly when, for some already accepted session, the minutes that the two
  \<open>[start, end)\<close> ranges share, divided by the candidate's own asleep duration, exceed
  0.8; the minutes and the quotient are rounded to doubles, and 0.8 is the double. For a
  combined candidate \<open>c\<close> and a candidate \<open>n\<close> that is not combined, when that quotient of
  \<open>n\<close> against \<open>c\<close> exceeds 0.8, the two never survive together: in any list of candidates,
  when \<open>c\<close> survives \<open>n\<close> does not; and only \<open>c\<close> survives a dedup of the two alone, in
  either input order. (In a longer list \<open>c\<close> itself can be rejected, and then \<open>n\<close> can
  survive.)
\<close>

theorem dedupSleep_properties:
  "mset (sortBy compareSleep cs) = mset cs \<and>
   (\<forall>i j. i < j \<and> j < length (sortBy compareSleep cs) \<longrightarrow>
      (s_isCombined (sortBy compareSleep cs ! j) \<longrightarrow> s_isCombined (sortBy compareSleep cs ! i)) \<and>
      (s_isCombined (sortBy compareSleep cs ! i) = s_isCombined (sortBy compareSleep cs ! j) \<longrightarrow>
         s_duration (sortBy compareSleep cs ! j) \<le> s_duration (sortBy compareSleep cs ! i))) \<and>
   dedupSleep cs = foldl keepStep [] (sortBy compareSleep cs) \<and>
   (0 < s_duration r \<longrightarrow>
      keepStep kept r =
        (if \<exists>k\<in>set kept.
              fl (fl (real (card ({s_start r..<s_end r} \<inter> {s_start k..<s_end k})) / 60000) /
                  s_duration r) > fl (8 / 10)
         then kept else kept @ [r])) \<and>
   (s_isCombined c \<and> \<not> s_isCombined n \<and> 0 < s_duration n \<and>
    fl (fl (real (card ({s_start n..<s_end n} \<inter> {s_start c..<s_end c})) / 60000) /
        s_duration n) > fl (8 / 10) \<longrightarrow>
      dedupSleep [c, n] = [c] \<and> dedupSleep [n, c] = [c] \<and>
      (c \<in> set (dedupSleep cs) \<longrightarrow> n \<notin> set (dedupSleep cs)))"
proof (intro conjI allI impI)
  show "mset (sortBy compareSleep cs) = mset cs" by (rule mset_sortBy)
  show "dedupSleep cs = foldl keepStep [] (sortBy compareSleep cs)" by (rule dedupSleep_def)
next
  fix i j
  assume ij: "i < j \<and> j < length (sortBy compareSleep cs)"
  then have le: "compareSleep (sortBy compareSleep cs ! i) (sortBy compareSleep cs ! j) \<le> 0"
    using sorted_sortBy_compareSleep [of cs] by (simp add: sorted_wrt_iff_nth_less)
  show "s_isCombined (sortBy compareSleep cs ! i)" if "s_isCombined (sortBy compareSleep cs ! j)"
    using le that by (simp add: compareSleep_le_iff)
  show "s_duration (sortBy compareSleep cs ! j) \<le> s_duration (sortBy compareSleep cs ! i)"
    if "s_isCombined (sortBy compareSleep cs ! i) = s_isCombined (sortBy compareSleep cs ! j)"
    using le that by (simp add: compareSleep_le_iff)
next
  assume "0 < s_duration r"
  show "keepStep kept r =
        (if \<exists>k\<in>set kept.
              fl (fl (real (card ({s_start r..<s_end r} \<inter> {s_start k..<s_end k})) / 60000) /
                  s_duration r) > fl (8 / 10)
         then kept else kept @ [r])"
    by (simp only: keepStep_def isEncapsulated_iff overlap_card)
next
  assume h: "s_isCombined c \<and> \<not> s_isCombined n \<and> 0 < s_duration n \<and>
    fl (fl (real (card ({s_start n..<s_end n} \<inter> {s_start c..<s_end c})) / 60000) /
        s_duration n) > fl (8 / 10)"
  then have c: "s_isCombined c" and n: "\<not> s_isCombined n"
    by blast+
  from h have ov: "fl (overlapDuration n c / s_duration n) > fl (8 / 10)"
    unfolding overlap_card by blast
  show "dedupSleep [c, n] = [c]" using c n ov by (rule dedup_pair(1))
  show "dedupSleep [n, c] = [c]" using c n ov by (rule dedup_pair(2))
  show "n \<notin> set (dedupSleep cs)" if "c \<in> set (dedupSleep cs)"
    using c n ov that by (rule combined_wins)
qed

theorem dedupSleep_properties_witness:
  "s_isCombined \<lparr>s_start = 0, s_end = 5400000, s_duration = 90, s_rawDuration = 90,
       s_efficiency = 0, s_score = 0, s_isCombined = True\<rparr> \<and>
   \<not> s_isCombined \<lparr>s_start = 0, s_end = 6000000, s_duration = 100, s_rawDuration = 100,
       s_efficiency = 0, s_score = 0, s_isCombined = False\<rparr> \<and>
   0 < s_duration \<lparr>s_start = 0, s_end = 6000000, s_duration = 100, s_rawDuration = 100,
       s_efficiency = 0, s_score = 0, s_isCombined = False\<rparr> \<and>
   overlapDuration \<lparr>s_start = 0, s_end = 6000000, s_duration = 100, s_rawDuration = 100,
       s_efficiency = 0, s_score = 0, s_isCombined = False\<rparr>
     \<lparr>s_start = 0, s_end = 5400000, s_duration = 90, s_rawDuration = 90,
       s_efficiency = 0, s_score = 0, s_isCombined = True\<rparr> = 90 \<and>
   fl (overlapDuration \<lparr>s_start = 0, s_end = 6000000, s_duration = 100, s_rawDuration = 100,
       s_efficiency = 0, s_score = 0, s_isCombined = False\<rparr>
     \<lparr>s_start = 0, s_end = 5400000, s_duration = 90, s_rawDuration = 90,
       s_efficiency = 0, s_score = 0, s_isCombined = True\<rparr> / s_duration \<lparr>s_start = 0, s_end = 6000000, s_duration = 100, s_rawDuration = 100,
       s_efficiency = 0, s_score = 0, s_isCombined = False\<rparr>) > fl (8 / 10) \<and>
   dedupSleep [\<lparr>s_start = 0, s_end = 6000000, s_duration = 100, s_rawDuration = 100,
       s_efficiency = 0, s_score = 0, s_isCombined = False\<rparr>,
     \<lparr>s_start = 0, s_end = 5400000, s_duration = 90, s_rawDuration = 90,
       s_efficiency = 0, s_score = 0, s_isCombined = True\<rparr>] = [\<lparr>s_start = 0, s_end = 5400000, s_duration = 90, s_rawDuration = 90,
       s_efficiency = 0, s_score = 0, s_isCombined = True\<rparr>] \<and>
   keepStep [\<lparr>s_start = 0, s_end = 5400000, s_duration = 90, s_rawDuration = 90,
       s_efficiency = 0, s_score = 0, s_isCombined = True\<rparr>]
     \<lparr>s_start = 0, s_end = 6000000, s_duration = 100, s_rawDuration = 100,
       s_efficiency = 0, s_score = 0, s_isCombined = False\<rparr> = [\<lparr>s_start = 0, s_end = 5400000, s_duration = 90, s_rawDuration = 90,
       s_efficiency = 0, s_score = 0, s_isCombined = True\<rparr>]"
proof -
  define c where "c = \<lparr>s_start = 0, s_end = 5400000, s_duration = 90, s_rawDuration = 90,
       s_efficiency = 0, s_score = 0, s_isCombined = True\<rparr>"
  define n where "n = \<lparr>s_start = 0, s_end = 6000000, s_duration = 100, s_rawDuration = 100,
       s_efficiency = 0, s_score = 0, s_isCombined = False\<rparr>"
  have ov: "overlapDuration n c = 90"
    by (simp add: overlapDuration_def c_def n_def fl_numeral)
  have q: "fl (overlapDuration n c / s_duration n) > fl (8 / 10)"
    unfolding ov by (simp add: n_def fl_nine_tenths fl_four_fifths)
  have h: "s_isCombined c \<and> \<not> s_isCombined n \<and> 0 < s_duration n \<and>
    fl (fl (real (card ({s_start n..<s_end n} \<inter> {s_start c..<s_end c})) / 60000) /
        s_duration n) > fl (8 / 10)"
    unfolding overlap_card [symmetric] using q by (simp add: c_def n_def)
  have d: "0 < s_duration n" by (simp add: n_def)
  from dedupSleep_properties [of "[]" n "[c]" c n] h d
  have "dedupSleep [n, c] = [c]"
    and "keepStep [c] n =
        (if \<exists>k\<in>set [c].
              fl (fl (real (card ({s_start n..<s_end n} \<inter> {s_start k..<s_end k})) / 60000) /
                  s_duration n) > fl (8 / 10)
         then [c] else [c] @ [n])"
    by blast+
  then have "dedupSleep [n, c] = [c]" "keepStep [c] n = [c]"
    using h by simp_all
  then show ?thesis using ov q unfolding c_def n_def by simp
qed

text \<open>
  A combined session of 80 minutes and a session of 100 minutes that is not combined,
  both starting at the same instant: the ranges share 80 minutes, which is 80% of the
  range and of the asleep duration of the second, and both survive. And three
  candidates: a combined session over minutes 0 to 250 (asleep 200), a combined session
  over minutes 200 to 300 (asleep 60) and a session over minutes 250 to 300 (asleep 50)
  that is not combined. The second covers the whole range of the third, but it is
  rejected against the first, and the third survives.
\<close>

theorem dedupSleep_boundary_counterexample:
  "s_isCombined \<lparr>s_start = 0, s_end = 4800000, s_duration = 80, s_rawDuration = 80,
       s_efficiency = 0, s_score = 0, s_isCombined = True\<rparr> \<and>
   \<not> s_isCombined \<lparr>s_start = 0, s_end = 6000000, s_duration = 100, s_rawDuration = 100,
       s_efficiency = 0, s_score = 0, s_isCombined = False\<rparr> \<and>
   overlapDuration \<lparr>s_start = 0, s_end = 6000000, s_duration = 100, s_rawDuration = 100,
       s_efficiency = 0, s_score = 0, s_isCombined = False\<rparr>
     \<lparr>s_start = 0, s_end = 4800000, s_duration = 80, s_rawDuration = 80,
       s_efficiency = 0, s_score = 0, s_isCombined = True\<rparr> = 80 \<and>
   spanMinutes (s_start \<lparr>s_start = 0, s_end = 6000000, s_duration = 100, s_rawDuration = 100,
       s_efficiency = 0, s_score = 0, s_isCombined = False\<rparr>)
     (s_end \<lparr>s_start = 0, s_end = 6000000, s_duration = 100, s_rawDuration = 100,
       s_efficiency = 0, s_score = 0, s_isCombined = False\<rparr>) = 100 \<and>
   s_duration \<lparr>s_start = 0, s_end = 6000000, s_duration = 100, s_rawDuration = 100,
       s_efficiency = 0, s_score = 0, s_isCombined = False\<rparr> = 100 \<and>
   dedupSleep [\<lparr>s_start = 0, s_end = 4800000, s_duration = 80, s_rawDuration = 80,
       s_efficiency = 0, s_score = 0, s_isCombined = True\<rparr>,
     \<lparr>s_start = 0, s_end = 6000000, s_duration = 100, s_rawDuration = 100,
       s_efficiency = 0, s_score = 0, s_isCombined = False\<rparr>] =
     [\<lparr>s_start = 0, s_end = 4800000, s_duration = 80, s_rawDuration = 80,
       s_efficiency = 0, s_score = 0, s_isCombined = True\<rparr>,
      \<lparr>s_start = 0, s_end = 6000000, s_duration = 100, s_rawDuration = 100,
       s_efficiency = 0, s_score = 0, s_isCombined = False\<rparr>] \<and>
   dedupSleep [\<lparr>s_start = 0, s_end = 6000000, s_duration = 100, s_rawDuration = 100,
       s_efficiency = 0, s_score = 0, s_isCombined = False\<rparr>,
     \<lparr>s_start = 0, s_end = 4800000, s_duration = 80, s_rawDuration = 80,
       s_efficiency = 0, s_score = 0, s_isCombined = True\<rparr>] =
     [\<lparr>s_start = 0, s_end = 4800000, s_duration = 80, s_rawDuration = 80,
       s_efficiency = 0, s_score = 0, s_isCombined = True\<rparr>,
      \<lparr>s_start = 0, s_end = 6000000, s_duration = 100, s_rawDuration = 100,
       s_efficiency = 0, s_score = 0, s_isCombined = False\<rparr>] \<and>
   overlapDuration \<lparr>s_start = 15000000, s_end = 18000000, s_duration = 50, s_rawDuration = 50,
       s_efficiency = 0, s_score = 0, s_isCombined = False\<rparr>
     \<lparr>s_start = 12000000, s_end = 18000000, s_duration = 60, s_rawDuration = 60,
       s_efficiency = 0, s_score = 0, s_isCombined = True\<rparr> = 50 \<and>
   fl (overlapDuration \<lparr>s_start = 15000000, s_end = 18000000, s_duration = 50, s_rawDuration = 50,
       s_efficiency = 0, s_score = 0, s_isCombined = False\<rparr>
     \<lparr>s_start = 12000000, s_end = 18000000, s_duration = 60, s_rawDuration = 60,
       s_efficiency = 0, s_score = 0, s_isCombined = True\<rparr> / s_duration \<lparr>s_start = 15000000, s_end = 18000000, s_duration = 50, s_rawDuration = 50,
       s_efficiency = 0, s_score = 0, s_isCombined = False\<rparr>) > fl (8 / 10) \<and>
   dedupSleep [\<lparr>s_start = 0, s_end = 15000000, s_duration = 200, s_rawDuration = 200,
       s_efficiency = 0, s_score = 0, s_isCombined = True\<rparr>,
     \<lparr>s_start = 12000000, s_end = 18000000, s_duration = 60, s_rawDuration = 60,
       s_efficiency = 0, s_score = 0, s_isCombined = True\<rparr>,
     \<lparr>s_start = 15000000, s_end = 18000000, s_duration = 50, s_rawDuration = 50,
       s_efficiency = 0, s_score = 0, s_isCombined = False\<rparr>] =
     [\<lparr>s_start = 0, s_end = 15000000, s_duration = 200, s_rawDuration = 200,
       s_efficiency = 0, s_score = 0, s_isCombined = True\<rparr>,
      \<lparr>s_start = 15000000, s_end = 18000000, s_duration = 50, s_rawDuration = 50,
       s_efficiency = 0, s_score = 0, s_isCombined = False\<rparr>]"
proof -
  have a: "overlapDuration \<lparr>s_start = 0, s_end = 6000000, s_duration = 100, s_rawDuration = 100,
       s_efficiency = 0, s_score = 0, s_isCombined = False\<rparr>
     \<lparr>s_start = 0, s_end = 4800000, s_duration = 80, s_rawDuration = 80,
       s_efficiency = 0, s_score = 0, s_isCombined = True\<rparr> = 80"
    by (simp add: overlapDuration_def fl_numeral)
  have b: "dedupSleep [\<lparr>s_start = 0, s_end = 4800000, s_duration = 80, s_rawDuration = 80,
       s_efficiency = 0, s_score = 0, s_isCombined = True\<rparr>,
     \<lparr>s_start = 0, s_end = 6000000, s_duration = 100, s_rawDuration = 100,
       s_efficiency = 0, s_score = 0, s_isCombined = False\<rparr>] =
     [\<lparr>s_start = 0, s_end = 4800000, s_duration = 80, s_rawDuration = 80,
       s_efficiency = 0, s_score = 0, s_isCombined = True\<rparr>,
      \<lparr>s_start = 0, s_end = 6000000, s_duration = 100, s_rawDuration = 100,
       s_efficiency = 0, s_score = 0, s_isCombined = False\<rparr>]"
    by (simp add: dedupSleep_def sortBy_def compareSleep_def keepStep_def isEncapsulated_def
        overlapDuration_def fl_numeral)
  have c: "dedupSleep [\<lparr>s_start = 0, s_end = 6000000, s_duration = 100, s_rawDuration = 100,
       s_efficiency = 0, s_score = 0, s_isCombined = False\<rparr>,
     \<lparr>s_start = 0, s_end = 4800000, s_duration = 80, s_rawDuration = 80,
       s_efficiency = 0, s_score = 0, s_isCombined = True\<rparr>] =
     [\<lparr>s_start = 0, s_end = 4800000, s_duration = 80, s_rawDuration = 80,
       s_efficiency = 0, s_score = 0, s_isCombined = True\<rparr>,
      \<lparr>s_start = 0, s_end = 6000000, s_duration = 100, s_rawDuration = 100,
       s_efficiency = 0, s_score = 0, s_isCombined = False\<rparr>]"
    by (simp add: dedupSleep_def sortBy_def compareSleep_def keepStep_def isEncapsulated_def
        overlapDuration_def fl_numeral)
  have d: "overlapDuration \<lparr>s_start = 15000000, s_end = 18000000, s_duration = 50, s_rawDuration = 50,
       s_efficiency = 0, s_score = 0, s_isCombined = False\<rparr>
     \<lparr>s_start = 12000000, s_end = 18000000, s_duration = 60, s_rawDuration = 60,
       s_efficiency = 0, s_score = 0, s_isCombined = True\<rparr> = 50"
    by (simp add: overlapDuration_def fl_numeral)
  have e: "fl (overlapDuration \<lparr>s_start = 15000000, s_end = 18000000, s_duration = 50, s_rawDuration = 50,
       s_efficiency = 0, s_score = 0, s_isCombined = False\<rparr>
     \<lparr>s_start = 12000000, s_end = 18000000, s_duration = 60, s_rawDuration = 60,
       s_efficiency = 0, s_score = 0, s_isCombined = True\<rparr> / s_duration \<lparr>s_start = 15000000, s_end = 18000000, s_duration = 50, s_rawDuration = 50,
       s_efficiency = 0, s_score = 0, s_isCombined = False\<rparr>) > fl (8 / 10)"
    unfolding d by (simp add: fl_one fl_four_fifths)
  have f: "dedupSleep [\<lparr>s_start = 0, s_end = 15000000, s_duration = 200, s_rawDuration = 200,
       s_efficiency = 0, s_score = 0, s_isCombined = True\<rparr>,
     \<lparr>s_start = 12000000, s_end = 18000000, s_duration = 60, s_rawDuration = 60,
       s_efficiency = 0, s_score = 0, s_isCombined = True\<rparr>,
     \<lparr>s_start = 15000000, s_end = 18000000, s_duration = 50, s_rawDuration = 50,
       s_efficiency = 0, s_score = 0, s_isCombined = False\<rparr>] =
     [\<lparr>s_start = 0, s_end = 15000000, s_duration = 200, s_rawDuration = 200,
       s_efficiency = 0, s_score = 0, s_isCombined = True\<rparr>,
      \<lparr>s_start = 15000000, s_end = 18000000, s_duration = 50, s_rawDuration = 50,
       s_efficiency = 0, s_score = 0, s_isCombined = False\<rparr>]"
    by (simp add: dedupSleep_def sortBy_def compareSleep_def keepStep_def isEncapsulated_def
        overlapDuration_def fl_numeral fl_zero fl_one fl_five_sixths fl_four_fifths)
  show ?thesis using a b c d e f by (simp add: spanMinutes_def)
qed

section \<open>Properties of the transformation without years\<close>

lemma map_filter_empty_iff: "List.map_filter f xs = [] \<longleftrightarrow> (\<forall>x\<in>set xs. f x = None)"
  by (induction xs) (simp_all add: List.map_filter_simps split: option.splits)

lemma sort_key_empty_iff: "sort_key f xs = [] \<longleftrightarrow> xs = []"
proof
  assume "sort_key f xs = []"
  then have "length (sort_key f xs) = 0" by simp
  then show "xs = []" by (simp only: length_sort length_0_conv)
next
  assume "xs = []"
  then show "sort_key f xs = []" by simp
qed

lemma discoverYears_empty_iff:
  "discoverYears getFullYear data processedSleep = [] \<longleftrightarrow>
     (\<forall>s\<in>set (steps data). st_year s = None) \<and> processedSleep = [] \<and>
     (\<forall>y\<in>set (heartRate data). y = None) \<and> (\<forall>y\<in>set (hrv data). y = None) \<and>
     (\<forall>y\<in>set (exercises data). y = None)"
  unfolding discoverYears_def sort_key_empty_iff remdups_eq_nil_iff
  by (simp add: map_filter_empty_iff)

lemma enrichAll_throws_iff:
  "(\<exists>e. enrichAll rows = Inl e) \<longleftrightarrow> (\<exists>s\<in>set rows. r_start s = Absent)"
proof (induction rows)
  case Nil
  show ?case by simp
next
  case (Cons s rest)
  show ?case
  proof (cases "r_start s")
    case Absent
    then show ?thesis by (simp add: enrichSleep_def)
  next
    case Invalid
    then have "(\<exists>e. enrichAll (s # rest) = Inl e) \<longleftrightarrow> (\<exists>e. enrichAll rest = Inl e)"
      by (cases "enrichAll rest") (simp_all add: enrichSleep_def)
    then show ?thesis using Cons.IH Invalid by simp
  next
    case (Valid t)
    then have "(\<exists>e. enrichAll (s # rest) = Inl e) \<longleftrightarrow> (\<exists>e. enrichAll rest = Inl e)"
      by (cases "enrichAll rest") (simp_all add: enrichSleep_def Let_def)
    then show ?thesis using Cons.IH Valid by simp
  qed
qed

text \<open>
  C3 (amended). When no year is discovered, that is when no step, heart-rate, HRV or
  exercise row has a year and no sleep session is kept, \<open>transformHealthData\<close> returns
  the empty object, without an \<open>All Time\<close> entry and without an error; the caller stores
  it, selects \<open>All Time\<close> and goes to the dashboard step, where nothing is rendered, since
  the object has no \<open>All Time\<close> entry. A failure is reported (the alert, and back to the
  upload page) only for an exception: when the archive could not be read, and when a
  sleep row has none of the start fields, which throws a \<open>TypeError\<close> before any year is
  looked for.
\<close>

theorem transformHealthData_no_years:
  "(enrichAll (sleep data) = Inr enrichedSleep \<and>
    discoverYears getFullYear data (dedupSleep enrichedSleep) = [] \<longrightarrow>
      transformHealthData getFullYear buildYear data = Inr [] \<and>
      handleFileUpload getFullYear buildYear (Inr data) = Dashboard [] ''All Time'' \<and>
      renderApp (handleFileUpload getFullYear buildYear (Inr data)) = Nothing) \<and>
   (enrichAll (sleep data) = Inl e \<longrightarrow>
      transformHealthData getFullYear buildYear data = Inl e \<and>
      handleFileUpload getFullYear buildYear (Inr data) = UploadAfterAlert \<and>
      renderApp (handleFileUpload getFullYear buildYear (Inr data)) = UploadPage) \<and>
   ((\<exists>e. enrichAll (sleep data) = Inl e) \<longleftrightarrow> (\<exists>s\<in>set (sleep data). r_start s = Absent)) \<and>
   handleFileUpload getFullYear buildYear (Inl e) = UploadAfterAlert \<and>
   (discoverYears getFullYear data processedSleep = [] \<longleftrightarrow>
      (\<forall>s\<in>set (steps data). st_year s = None) \<and> processedSleep = [] \<and>
      (\<forall>y\<in>set (heartRate data). y = None) \<and> (\<forall>y\<in>set (hrv data). y = None) \<and>
      (\<forall>y\<in>set (exercises data). y = None))"
proof -
  have a: "enrichAll (sleep data) = Inr enrichedSleep \<and>
    discoverYears getFullYear data (dedupSleep enrichedSleep) = [] \<longrightarrow>
      transformHealthData getFullYear buildYear data = Inr [] \<and>
      handleFileUpload getFullYear buildYear (Inr data) = Dashboard [] ''All Time'' \<and>
      renderApp (handleFileUpload getFullYear buildYear (Inr data)) = Nothing"
    by (simp add: transformHealthData_def handleFileUpload_def renderApp_def)
  have b: "enrichAll (sleep data) = Inl e \<longrightarrow>
      transformHealthData getFullYear buildYear data = Inl e \<and>
      handleFileUpload getFullYear buildYear (Inr data) = UploadAfterAlert \<and>
      renderApp (handleFileUpload getFullYear buildYear (Inr data)) = UploadPage"
    by (simp add: transformHealthData_def handleFileUpload_def renderApp_def)
  have c: "(\<exists>e. enrichAll (sleep data) = Inl e) \<longleftrightarrow> (\<exists>s\<in>set (sleep data). r_start s = Absent)"
    by (rule enrichAll_throws_iff)
  have d: "handleFileUpload getFullYear buildYear (Inl e) = UploadAfterAlert"
    by (simp add: handleFileUpload_def)
  show ?thesis using a b c d discoverYears_empty_iff [of getFullYear data processedSleep] by blast
qed

theorem transformHealthData_no_years_witness:
  "enrichAll (sleep \<lparr>steps = [\<lparr>st_year = None, st_count = 5, st_deviceSource = True\<rparr>],
       exercises = [], sleep = [], heartRate = [], hrv = []\<rparr>) = Inr [] \<and>
   discoverYears (\<lambda>t. 1970)
     \<lparr>steps = [\<lparr>st_year = None, st_count = 5, st_deviceSource = True\<rparr>],
       exercises = [], sleep = [], heartRate = [], hrv = []\<rparr> (dedupSleep []) = [] \<and>
   transformHealthData (\<lambda>t. 1970) (\<lambda>d s y. emptyYear (toStringInt y))
     \<lparr>steps = [\<lparr>st_year = None, st_count = 5, st_deviceSource = True\<rparr>],
       exercises = [], sleep = [], heartRate = [], hrv = []\<rparr> = Inr [] \<and>
   renderApp (handleFileUpload (\<lambda>t. 1970) (\<lambda>d s y. emptyYear (toStringInt y))
     (Inr \<lparr>steps = [\<lparr>st_year = None, st_count = 5, st_deviceSource = True\<rparr>],
       exercises = [], sleep = [], heartRate = [], hrv = []\<rparr>)) = Nothing \<and>
   enrichAll (sleep \<lparr>steps = [\<lparr>st_year = Some 2024, st_count = 5, st_deviceSource = True\<rparr>],
       exercises = [],
       sleep = [\<lparr>r_fileName = ''sleep.csv'', r_offsetMinutes = 0, r_start = Absent, r_end = Absent,
         r_duration = 480, r_efficiency = 90, r_score = 80\<rparr>],
       heartRate = [], hrv = []\<rparr>) = Inl TypeError \<and>
   handleFileUpload (\<lambda>t. 1970) (\<lambda>d s y. emptyYear (toStringInt y))
     (Inr \<lparr>steps = [\<lparr>st_year = Some 2024, st_count = 5, st_deviceSource = True\<rparr>],
       exercises = [],
       sleep = [\<lparr>r_fileName = ''sleep.csv'', r_offsetMinutes = 0, r_start = Absent, r_end = Absent,
         r_duration = 480, r_efficiency = 90, r_score = 80\<rparr>],
       heartRate = [], hrv = []\<rparr>) = UploadAfterAlert"
proof -
  define data where "data = \<lparr>steps = [\<lparr>st_year = None, st_count = 5, st_deviceSource = True\<rparr>],
       exercises = [], sleep = [], heartRate = [], hrv = []\<rparr>"
  define data2 where "data2 = \<lparr>steps = [\<lparr>st_year = Some 2024, st_count = 5, st_deviceSource = True\<rparr>],
       exercises = [],
       sleep = [\<lparr>r_fileName = ''sleep.csv'', r_offsetMinutes = 0, r_start = Absent, r_end = Absent,
         r_duration = 480, r_efficiency = 90, r_score = 80\<rparr>],
       heartRate = [], hrv = []\<rparr>"
  have e: "enrichAll (sleep data) = Inr []" by (simp add: data_def)
  have d: "dedupSleep [] = []" by (simp add: dedupSleep_def sortBy_def)
  have y: "discoverYears (\<lambda>t. 1970) data (dedupSleep []) = []"
    by (simp add: discoverYears_empty_iff d) (simp add: data_def)
  from transformHealthData_no_years
    [of data "[]" "\<lambda>t. 1970" "\<lambda>d s y. emptyYear (toStringInt y)"] e y
  have r1: "transformHealthData (\<lambda>t. 1970) (\<lambda>d s y. emptyYear (toStringInt y)) data = Inr []"
    "renderApp (handleFileUpload (\<lambda>t. 1970) (\<lambda>d s y. emptyYear (toStringInt y)) (Inr data)) =
       Nothing"
    by blast+
  have e2: "enrichAll (sleep data2) = Inl TypeError"
    by (simp add: data2_def enrichSleep_def)
  from transformHealthData_no_years
    [of data2 _ "\<lambda>t. 1970" "\<lambda>d s y. emptyYear (toStringInt y)" TypeError] e2
  have r2: "handleFileUpload (\<lambda>t. 1970) (\<lambda>d s y. emptyYear (toStringInt y)) (Inr data2) =
      UploadAfterAlert"
    by blast
  show ?thesis using e y r1 e2 r2 unfolding data_def data2_def by simp
qed

text \<open>
  For data without any row the transformation returns the empty object, and the caller
  goes on to the dashboard step, where nothing is rendered: no failure is reported.
\<close>

theorem transformHealthData_empty_counterexample:
  "transformHealthData (\<lambda>t. 1970) (\<lambda>d s y. emptyYear (toStringInt y))
     \<lparr>steps = [], exercises = [], sleep = [], heartRate = [], hrv = []\<rparr> = Inr [] \<and>
   handleFileUpload (\<lambda>t. 1970) (\<lambda>d s y. emptyYear (toStringInt y))
     (Inr \<lparr>steps = [], exercises = [], sleep = [], heartRate = [], hrv = []\<rparr>) =
     Dashboard [] ''All Time'' \<and>
   handleFileUpload (\<lambda>t. 1970) (\<lambda>d s y. emptyYear (toStringInt y))
     (Inr \<lparr>steps = [], exercises = [], sleep = [], heartRate = [], hrv = []\<rparr>) \<noteq>
     UploadAfterAlert \<and>
   renderApp (handleFileUpload (\<lambda>t. 1970) (\<lambda>d s y. emptyYear (toStringInt y))
     (Inr \<lparr>steps = [], exercises = [], sleep = [], heartRate = [], hrv = []\<rparr>)) = Nothing"
  by (simp add: transformHealthData_def handleFileUpload_def discoverYears_def
      dedupSleep_def sortBy_def List.map_filter_def renderApp_def)

section \<open>Properties of the wellness reductions\<close>

text \<open>
  C8. The division of the per-day mean is not guarded: an empty day bucket gives \<open>NaN\<close>,
  which the filter \<open>value > 0\<close> then drops. The per-day SpO2 minimum of an empty bucket
  is \<open>Infinity\<close>, which passes the filter and stays in the series. The year's \<open>minSpO2\<close>
  is guarded and is 0 without data, but the All Time \<open>minSpO2\<close> over years without SpO2
  data is \<open>Math.min()\<close> of no argument, \<open>Infinity\<close>.
\<close>

theorem wellness_reductions_unguarded:
  "dailyMeanValue [] = NaN \<and>
   dailyMeanData [(''2024-01-01'', [])] = [] \<and>
   dailyMinValue [] = PosInf \<and>
   dailySpO2 [(''2024-01-01'', [])] = [(''2024-01-01'', PosInf)] \<and>
   yearMinSpO2 [] = Num 0 \<and>
   minSpO2 (emptyYear ''2024'') = Num 0 \<and>
   minSpO2 (allTime [emptyYear ''2024'']) = PosInf"
  by (simp add: dailyMeanValue_def dailyMeanData_def dailyMinValue_def dailySpO2_def
      yearMinSpO2_def js_div_def Math_min_def sortByDate_def sortBy_def allTime_def
      emptyYear_def)

section \<open>Properties of the All Time entry\<close>

lemma foldl_add_field_int:
  "foldl (\<lambda>sum y. sum + f y) a ys = a + sum_list (map f ys)" for f :: "'a \<Rightarrow> int"
  by (induction ys arbitrary: a) simp_all

lemma foldl_add_field_real:
  "foldl (\<lambda>sum y. sum + f y) a ys = a + sum_list (map f ys)" for f :: "'a \<Rightarrow> real"
  by (induction ys arbitrary: a) simp_all

lemma meanRounded_eq:
  "meanRounded vs = js_round (of_int (sum_list vs) / real (length vs))"
  using foldl_add_field_int [of "\<lambda>v. v" 0 vs] by (simp add: meanRounded_def)

lemma foldl_best:
  fixes k :: "'r \<Rightarrow> 'k::linorder"
  shows "k (foldl (\<lambda>best y. if k best < k (g y) then g y else best) b ys) =
           Max (insert (k b) (set (map (\<lambda>y. k (g y)) ys))) \<and>
         (foldl (\<lambda>best y. if k best < k (g y) then g y else best) b ys = b \<or>
          foldl (\<lambda>best y. if k best < k (g y) then g y else best) b ys \<in> set (map g ys))"
proof (induction ys arbitrary: b)
  case Nil
  show ?case by simp
next
  case (Cons y ys)
  define b' where "b' = (if k b < k (g y) then g y else b)"
  have kb': "k b' = max (k b) (k (g y))" by (auto simp: b'_def max_def)
  have step: "foldl (\<lambda>best y. if k best < k (g y) then g y else best) b (y # ys) =
              foldl (\<lambda>best y. if k best < k (g y) then g y else best) b' ys"
    by (simp add: b'_def)
  have fin: "finite (set (map (\<lambda>y. k (g y)) ys))" by simp
  have "Max (insert (k b') (set (map (\<lambda>y. k (g y)) ys))) =
        Max (insert (k b) (set (map (\<lambda>y. k (g y)) (y # ys))))"
  proof (cases "set (map (\<lambda>y. k (g y)) ys) = {}")
    case True
    then show ?thesis by (simp add: kb')
  next
    case False
    have "Max (insert (k b') (set (map (\<lambda>y. k (g y)) ys))) =
          max (k b') (Max (set (map (\<lambda>y. k (g y)) ys)))"
      using fin False by (rule Max_insert)
    moreover have "Max (insert (k b) (insert (k (g y)) (set (map (\<lambda>y. k (g y)) ys)))) =
          max (k b) (max (k (g y)) (Max (set (map (\<lambda>y. k (g y)) ys))))"
      using fin False by simp
    ultimately show ?thesis by (simp add: kb' max.assoc)
  qed
  moreover have "b' = b \<or> b' = g y" by (simp add: b'_def)
  ultimately show ?case unfolding step using Cons.IH [of b'] by auto
qed

lemma localeCompare_le_iff: "localeCompare a b \<le> 0 \<longleftrightarrow> a \<le> b"
  by (auto simp: localeCompare_def)

lemma sortByDate_sorted: "sorted (map fst (sortByDate es))"
proof -
  have "sorted_wrt (\<lambda>a b. localeCompare (fst a) (fst b) \<le> 0)
          (sortBy (\<lambda>a b. localeCompare (fst a) (fst b)) es)"
  proof (rule sorted_sortBy)
    fix a b :: "string \<times> 'a"
    show "localeCompare (fst a) (fst b) \<le> 0 \<or> localeCompare (fst b) (fst a) \<le> 0"
      unfolding localeCompare_le_iff by (rule linear)
  next
    fix a b c :: "string \<times> 'a"
    assume "localeCompare (fst a) (fst b) \<le> 0" "localeCompare (fst b) (fst c) \<le> 0"
    then show "localeCompare (fst a) (fst c) \<le> 0"
      unfolding localeCompare_le_iff by (rule order_trans)
  qed
  then have "sorted_wrt (\<lambda>a b. fst a \<le> fst b) (sortByDate es)"
    by (simp only: localeCompare_le_iff sortByDate_def)
  then show ?thesis by (simp only: sorted_wrt_map)
qed

lemma sortByDate_mset: "mset (sortByDate es) = mset es"
  by (simp add: sortByDate_def mset_sortBy)

lemma sortByDate_merged:
  "sorted (map fst (sortByDate (concat (map f ys)))) \<and>
   mset (sortByDate (concat (map f ys))) = mset (concat (map f ys))"
  by (simp add: sortByDate_sorted sortByDate_mset)


lemma best_is_max:
  fixes k :: "'r \<Rightarrow> 'k::linorder"
  assumes "ys \<noteq> []" "\<forall>y\<in>set ys. k b \<le> k (g y)"
  shows "k (foldl (\<lambda>best y. if k best < k (g y) then g y else best) b ys) =
           Max (set (map (\<lambda>y. k (g y)) ys))"
proof -
  have ne: "set (map (\<lambda>y. k (g y)) ys) \<noteq> {}" using assms(1) by simp
  have fin: "finite (set (map (\<lambda>y. k (g y)) ys))" by simp
  have "Max (set (map (\<lambda>y. k (g y)) ys)) \<in> set (map (\<lambda>y. k (g y)) ys)"
    using fin ne by (rule Max_in)
  then have "k b \<le> Max (set (map (\<lambda>y. k (g y)) ys))" using assms(2) by auto
  moreover have "Max (insert (k b) (set (map (\<lambda>y. k (g y)) ys))) =
      max (k b) (Max (set (map (\<lambda>y. k (g y)) ys)))"
    using fin ne by (rule Max_insert)
  ultimately show ?thesis using foldl_best [of k g b ys] by (simp add: max_def)
qed

lemma sum_list_perm_int:
  "mset ys' = mset ys \<Longrightarrow> sum_list (map f ys') = sum_list (map f ys)" for f :: "'a \<Rightarrow> int"
  by (metis mset_map sum_mset_sum_list)

lemma mset_concat_perm:
  assumes "mset ys' = mset ys"
  shows "mset (concat (map f ys')) = mset (concat (map f ys))"
proof -
  have c: "mset (concat (map f zs)) = sum_list (map (\<lambda>y. mset (f y)) zs)" for zs
    by (induction zs) simp_all
  have "sum_list (map (\<lambda>y. mset (f y)) ys') = sum_list (map (\<lambda>y. mset (f y)) ys)"
    using assms by (metis mset_map sum_mset_sum_list)
  then show ?thesis by (simp only: c)
qed

lemma allTime_totals:
  "totalSteps (allTime ys) = sum_list (map totalSteps ys) \<and>
   totalCalories (allTime ys) = sum_list (map totalCalories ys) \<and>
   totalDistance (allTime ys) = sum_list (map totalDistance ys) \<and>
   totalWorkouts (allTime ys) = sum_list (map totalWorkouts ys) \<and>
   totalWorkoutDuration (allTime ys) = sum_list (map totalWorkoutDuration ys) \<and>
   totalWorkoutCalories (allTime ys) = sum_list (map totalWorkoutCalories ys) \<and>
   totalWorkoutDistance (allTime ys) = sum_list (map totalWorkoutDistance ys)"
  by (simp add: allTime_def foldl_add_field_int foldl_add_field_real)

lemma allTime_rates:
  "dailyAvg (allTime ys) = js_round (of_int (sum_list (map dailyAvg ys)) / real (length ys)) \<and>
   avgEfficiency (allTime ys) = js_round (of_int (sum_list (map avgEfficiency ys)) / real (length ys)) \<and>
   avgRestingHR (allTime ys) = js_round (of_int (sum_list (map avgRestingHR ys)) / real (length ys)) \<and>
   avgHRV (allTime ys) = js_round (of_int (sum_list (map avgHRV ys)) / real (length ys)) \<and>
   avgStress (allTime ys) = js_round (of_int (sum_list (map avgStress ys)) / real (length ys))"
  by (simp add: allTime_def meanRounded_eq)

lemma allTime_bestDay:
  "(ys \<noteq> [] \<and> (\<forall>y\<in>set ys. 0 \<le> fst (bestDay y)) \<longrightarrow>
      fst (bestDay (allTime ys)) = Max (set (map (\<lambda>y. fst (bestDay y)) ys))) \<and>
   (bestDay (allTime ys) = (0, []) \<or> bestDay (allTime ys) \<in> set (map bestDay ys))"
proof -
  have f: "bestDay (allTime ys) =
      foldl (\<lambda>best y. if fst best < fst (bestDay y) then bestDay y else best) (0, []) ys"
    by (simp add: allTime_def)
  show ?thesis unfolding f
    using best_is_max [of ys fst "(0, [])" bestDay] foldl_best [of fst bestDay "(0, [])" ys] by simp
qed

lemma allTime_bestMonth:
  "(ys \<noteq> [] \<and> (\<forall>y\<in>set ys. 0 \<le> snd (bestMonth y)) \<longrightarrow>
      snd (bestMonth (allTime ys)) = Max (set (map (\<lambda>y. snd (bestMonth y)) ys))) \<and>
   (bestMonth (allTime ys) = ([], 0) \<or> bestMonth (allTime ys) \<in> set (map bestMonth ys))"
proof -
  have f: "bestMonth (allTime ys) =
      foldl (\<lambda>best y. if snd best < snd (bestMonth y) then bestMonth y else best) ([], 0) ys"
    by (simp add: allTime_def)
  show ?thesis unfolding f
    using best_is_max [of ys snd "([], 0)" bestMonth] foldl_best [of snd bestMonth "([], 0)" ys] by simp
qed

lemma allTime_mostStepsDay:
  "(ys \<noteq> [] \<and> (\<forall>y\<in>set ys. 0 \<le> fst (mostStepsDay y)) \<longrightarrow>
      fst (mostStepsDay (allTime ys)) = Max (set (map (\<lambda>y. fst (mostStepsDay y)) ys))) \<and>
   (mostStepsDay (allTime ys) = (0, []) \<or> mostStepsDay (allTime ys) \<in> set (map mostStepsDay ys))"
proof -
  have f: "mostStepsDay (allTime ys) =
      foldl (\<lambda>best y. if fst best < fst (mostStepsDay y) then mostStepsDay y else best) (0, []) ys"
    by (simp add: allTime_def)
  show ?thesis unfolding f
    using best_is_max [of ys fst "(0, [])" mostStepsDay] foldl_best [of fst mostStepsDay "(0, [])" ys] by simp
qed

lemma allTime_longestWorkout:
  "(ys \<noteq> [] \<and> (\<forall>y\<in>set ys. 0 \<le> fst (longestWorkout y)) \<longrightarrow>
      fst (longestWorkout (allTime ys)) = Max (set (map (\<lambda>y. fst (longestWorkout y)) ys))) \<and>
   (longestWorkout (allTime ys) = (0, [], []) \<or> longestWorkout (allTime ys) \<in> set (map longestWorkout ys))"
proof -
  have f: "longestWorkout (allTime ys) =
      foldl (\<lambda>best y. if fst best < fst (longestWorkout y) then longestWorkout y else best) (0, [], []) ys"
    by (simp add: allTime_def)
  show ?thesis unfolding f
    using best_is_max [of ys fst "(0, [], [])" longestWorkout] foldl_best [of fst longestWorkout "(0, [], [])" ys] by simp
qed

lemma allTime_bestSleepScore:
  "(ys \<noteq> [] \<and> (\<forall>y\<in>set ys. 0 \<le> fst (bestSleepScore y)) \<longrightarrow>
      fst (bestSleepScore (allTime ys)) = Max (set (map (\<lambda>y. fst (bestSleepScore y)) ys))) \<and>
   (bestSleepScore (allTime ys) = (0, []) \<or> bestSleepScore (allTime ys) \<in> set (map bestSleepScore ys))"
proof -
  have f: "bestSleepScore (allTime ys) =
      foldl (\<lambda>best y. if fst best < fst (bestSleepScore y) then bestSleepScore y else best) (0, []) ys"
    by (simp add: allTime_def)
  show ?thesis unfolding f
    using best_is_max [of ys fst "(0, [])" bestSleepScore] foldl_best [of fst bestSleepScore "(0, [])" ys] by simp
qed

lemma allTime_dailyStepData:
  "sorted (map fst (dailyStepData (allTime ys))) \<and>
   mset (dailyStepData (allTime ys)) = mset (concat (map dailyStepData ys))"
proof -
  have f: "dailyStepData (allTime ys) = sortByDate (concat (map dailyStepData ys))"
    by (simp add: allTime_def)
  show ?thesis unfolding f by (rule sortByDate_merged)
qed

lemma allTime_dailySleepData:
  "sorted (map fst (dailySleepData (allTime ys))) \<and>
   mset (dailySleepData (allTime ys)) = mset (concat (map dailySleepData ys))"
proof -
  have f: "dailySleepData (allTime ys) = sortByDate (concat (map dailySleepData ys))"
    by (simp add: allTime_def)
  show ?thesis unfolding f by (rule sortByDate_merged)
qed

lemma allTime_dailySleepScoreData:
  "sorted (map fst (dailySleepScoreData (allTime ys))) \<and>
   mset (dailySleepScoreData (allTime ys)) = mset (concat (map dailySleepScoreData ys))"
proof -
  have f: "dailySleepScoreData (allTime ys) = sortByDate (concat (map dailySleepScoreData ys))"
    by (simp add: allTime_def)
  show ?thesis unfolding f by (rule sortByDate_merged)
qed

lemma allTime_dailyHRData:
  "sorted (map fst (dailyHRData (allTime ys))) \<and>
   mset (dailyHRData (allTime ys)) = mset (concat (map dailyHRData ys))"
proof -
  have f: "dailyHRData (allTime ys) = sortByDate (concat (map dailyHRData ys))"
    by (simp add: allTime_def)
  show ?thesis unfolding f by (rule sortByDate_merged)
qed

lemma allTime_dailyHRVData:
  "sorted (map fst (dailyHRVData (allTime ys))) \<and>
   mset (dailyHRVData (allTime ys)) = mset (concat (map dailyHRVData ys))"
proof -
  have f: "dailyHRVData (allTime ys) = sortByDate (concat (map dailyHRVData ys))"
    by (simp add: allTime_def)
  show ?thesis unfolding f by (rule sortByDate_merged)
qed

lemma allTime_dailyStressData:
  "sorted (map fst (dailyStressData (allTime ys))) \<and>
   mset (dailyStressData (allTime ys)) = mset (concat (map dailyStressData ys))"
proof -
  have f: "dailyStressData (allTime ys) = sortByDate (concat (map dailyStressData ys))"
    by (simp add: allTime_def)
  show ?thesis unfolding f by (rule sortByDate_merged)
qed

lemma allTime_dailySpO2Data:
  "sorted (map fst (dailySpO2Data (allTime ys))) \<and>
   mset (dailySpO2Data (allTime ys)) = mset (concat (map dailySpO2Data ys))"
proof -
  have f: "dailySpO2Data (allTime ys) = sortByDate (concat (map dailySpO2Data ys))"
    by (simp add: allTime_def)
  show ?thesis unfolding f by (rule sortByDate_merged)
qed

lemma allTime_dailyWorkoutData:
  "sorted (map fst (dailyWorkoutData (allTime ys))) \<and>
   mset (dailyWorkoutData (allTime ys)) = mset (concat (map dailyWorkoutData ys))"
proof -
  have f: "dailyWorkoutData (allTime ys) = sortByDate (concat (map dailyWorkoutData ys))"
    by (simp add: allTime_def)
  show ?thesis unfolding f by (rule sortByDate_merged)
qed


lemma allTime_order_independent:
  "mset ys' = mset ys \<longrightarrow>
     totalSteps (allTime ys') = totalSteps (allTime ys) \<and>
     mset (dailyStepData (allTime ys')) = mset (dailyStepData (allTime ys))"
proof
  assume p: "mset ys' = mset ys"
  have "sum_list (map totalSteps ys') = sum_list (map totalSteps ys)"
    using p by (rule sum_list_perm_int)
  moreover have "mset (concat (map dailyStepData ys')) = mset (concat (map dailyStepData ys))"
    using p by (rule mset_concat_perm)
  ultimately show "totalSteps (allTime ys') = totalSteps (allTime ys) \<and>
     mset (dailyStepData (allTime ys')) = mset (dailyStepData (allTime ys))"
    using allTime_totals [of ys] allTime_totals [of ys']
      allTime_dailyStepData [of ys] allTime_dailyStepData [of ys'] by simp
qed

lemma allTime_steps_example:
  "totalSteps y1 = 100 + 200 \<and> totalSteps y2 = 300 \<longrightarrow> totalSteps (allTime [y1, y2]) = 600"
  using allTime_totals [of "[y1, y2]"] by simp

text \<open>
  C9 (amended). The All Time entry is computed from the list of the years' results alone.
  Its totals (steps, calories, distance, number of workouts, workout duration, calories
  and distance) are the sums over the years. Its rate-like fields (daily average,
  efficiency, resting heart rate, HRV, stress) are the arithmetic means over the years
  rounded to the nearest integer by \<open>Math.round\<close>. Its best day, best month and personal
  records carry the maximum of the years' own best values (these are never negative), and
  each is one of the years' own records or the zero sentinel. Every merged per-day series
  holds exactly the entries of the years' series and is sorted by date, whatever the order
  of the years; permuting the years changes neither the totals nor the entries. Two years
  whose step totals are 100 + 200 and 300 give 600 total steps.
\<close>

theorem allTime_properties:
  "(totalSteps (allTime ys) = sum_list (map totalSteps ys) \<and>
    totalCalories (allTime ys) = sum_list (map totalCalories ys) \<and>
    totalDistance (allTime ys) = sum_list (map totalDistance ys) \<and>
    totalWorkouts (allTime ys) = sum_list (map totalWorkouts ys) \<and>
    totalWorkoutDuration (allTime ys) = sum_list (map totalWorkoutDuration ys) \<and>
    totalWorkoutCalories (allTime ys) = sum_list (map totalWorkoutCalories ys) \<and>
    totalWorkoutDistance (allTime ys) = sum_list (map totalWorkoutDistance ys)) \<and>
   (dailyAvg (allTime ys) = js_round (of_int (sum_list (map dailyAvg ys)) / real (length ys)) \<and>
    avgEfficiency (allTime ys) = js_round (of_int (sum_list (map avgEfficiency ys)) / real (length ys)) \<and>
    avgRestingHR (allTime ys) = js_round (of_int (sum_list (map avgRestingHR ys)) / real (length ys)) \<and>
    avgHRV (allTime ys) = js_round (of_int (sum_list (map avgHRV ys)) / real (length ys)) \<and>
    avgStress (allTime ys) = js_round (of_int (sum_list (map avgStress ys)) / real (length ys))) \<and>
   ((ys \<noteq> [] \<and> (\<forall>y\<in>set ys. 0 \<le> fst (bestDay y)) \<longrightarrow>
       fst (bestDay (allTime ys)) = Max (set (map (\<lambda>y. fst (bestDay y)) ys))) \<and>
    (bestDay (allTime ys) = (0, []) \<or> bestDay (allTime ys) \<in> set (map bestDay ys))) \<and>
   ((ys \<noteq> [] \<and> (\<forall>y\<in>set ys. 0 \<le> snd (bestMonth y)) \<longrightarrow>
       snd (bestMonth (allTime ys)) = Max (set (map (\<lambda>y. snd (bestMonth y)) ys))) \<and>
    (bestMonth (allTime ys) = ([], 0) \<or> bestMonth (allTime ys) \<in> set (map bestMonth ys))) \<and>
   ((ys \<noteq> [] \<and> (\<forall>y\<in>set ys. 0 \<le> fst (mostStepsDay y)) \<longrightarrow>
       fst (mostStepsDay (allTime ys)) = Max (set (map (\<lambda>y. fst (mostStepsDay y)) ys))) \<and>
    (mostStepsDay (allTime ys) = (0, []) \<or> mostStepsDay (allTime ys) \<in> set (map mostStepsDay ys))) \<and>
   ((ys \<noteq> [] \<and> (\<forall>y\<in>set ys. 0 \<le> fst (longestWorkout y)) \<longrightarrow>
       fst (longestWorkout (allTime ys)) = Max (set (map (\<lambda>y. fst (longestWorkout y)) ys))) \<and>
    (longestWorkout (allTime ys) = (0, [], []) \<or> longestWorkout (allTime ys) \<in> set (map longestWorkout ys))) \<and>
   ((ys \<noteq> [] \<and> (\<forall>y\<in>set ys. 0 \<le> fst (bestSleepScore y)) \<longrightarrow>
       fst (bestSleepScore (allTime ys)) = Max (set (map (\<lambda>y. fst (bestSleepScore y)) ys))) \<and>
    (bestSleepScore (allTime ys) = (0, []) \<or> bestSleepScore (allTime ys) \<in> set (map bestSleepScore ys))) \<and>
   (sorted (map fst (dailyStepData (allTime ys))) \<and>
    mset (dailyStepData (allTime ys)) = mset (concat (map dailyStepData ys))) \<and>
   (sorted (map fst (dailySleepData (allTime ys))) \<and>
    mset (dailySleepData (allTime ys)) = mset (concat (map dailySleepData ys))) \<and>
   (sorted (map fst (dailySleepScoreData (allTime ys))) \<and>
    mset (dailySleepScoreData (allTime ys)) = mset (concat (map dailySleepScoreData ys))) \<and>
   (sorted (map fst (dailyHRData (allTime ys))) \<and>
    mset (dailyHRData (allTime ys)) = mset (concat (map dailyHRData ys))) \<and>
   (sorted (map fst (dailyHRVData (allTime ys))) \<and>
    mset (dailyHRVData (allTime ys)) = mset (concat (map dailyHRVData ys))) \<and>
   (sorted (map fst (dailyStressData (allTime ys))) \<and>
    mset (dailyStressData (allTime ys)) = mset (concat (map dailyStressData ys))) \<and>
   (sorted (map fst (dailySpO2Data (allTime ys))) \<and>
    mset (dailySpO2Data (allTime ys)) = mset (concat (map dailySpO2Data ys))) \<and>
   (sorted (map fst (dailyWorkoutData (allTime ys))) \<and>
    mset (dailyWorkoutData (allTime ys)) = mset (concat (map dailyWorkoutData ys))) \<and>
   (mset ys' = mset ys \<longrightarrow>
      totalSteps (allTime ys') = totalSteps (allTime ys) \<and>
      mset (dailyStepData (allTime ys')) = mset (dailyStepData (allTime ys))) \<and>
   (totalSteps y1 = 100 + 200 \<and> totalSteps y2 = 300 \<longrightarrow> totalSteps (allTime [y1, y2]) = 600)"
  by (rule conjI [OF allTime_totals conjI [OF allTime_rates conjI [OF allTime_bestDay conjI [OF allTime_bestMonth conjI [OF allTime_mostStepsDay conjI [OF allTime_longestWorkout conjI [OF allTime_bestSleepScore conjI [OF allTime_dailyStepData conjI [OF allTime_dailySleepData conjI [OF allTime_dailySleepScoreData conjI [OF allTime_dailyHRData conjI [OF allTime_dailyHRVData conjI [OF allTime_dailyStressData conjI [OF allTime_dailySpO2Data conjI [OF allTime_dailyWorkoutData conjI [OF allTime_order_independent allTime_steps_example]]]]]]]]]]]]]]]])

theorem allTime_properties_witness:
  "yearTotalSteps
     \<lparr>steps = [\<lparr>st_year = Some 2023, st_count = 100, st_deviceSource = True\<rparr>,
               \<lparr>st_year = Some 2023, st_count = 200, st_deviceSource = True\<rparr>,
               \<lparr>st_year = Some 2024, st_count = 300, st_deviceSource = True\<rparr>],
      exercises = [], sleep = [], heartRate = [], hrv = []\<rparr> 2023 = 100 + 200 \<and>
   yearTotalSteps
     \<lparr>steps = [\<lparr>st_year = Some 2023, st_count = 100, st_deviceSource = True\<rparr>,
               \<lparr>st_year = Some 2023, st_count = 200, st_deviceSource = True\<rparr>,
               \<lparr>st_year = Some 2024, st_count = 300, st_deviceSource = True\<rparr>],
      exercises = [], sleep = [], heartRate = [], hrv = []\<rparr> 2024 = 300 \<and>
   totalSteps (allTime
     [(emptyYear ''2023'')\<lparr>totalSteps := 300, bestDay := (200, ''2023-03-01'')\<rparr>,
      (emptyYear ''2024'')\<lparr>totalSteps := 300, bestDay := (300, ''2024-01-01'')\<rparr>]) = 600 \<and>
   fst (bestDay (allTime
     [(emptyYear ''2023'')\<lparr>totalSteps := 300, bestDay := (200, ''2023-03-01'')\<rparr>,
      (emptyYear ''2024'')\<lparr>totalSteps := 300, bestDay := (300, ''2024-01-01'')\<rparr>])) = 300 \<and>
   totalSteps (allTime
     [(emptyYear ''2024'')\<lparr>totalSteps := 300, bestDay := (300, ''2024-01-01'')\<rparr>,
      (emptyYear ''2023'')\<lparr>totalSteps := 300, bestDay := (200, ''2023-03-01'')\<rparr>]) = 600"
proof -
  define y1 where "y1 = (emptyYear ''2023'')\<lparr>totalSteps := 300, bestDay := (200, ''2023-03-01'')\<rparr>"
  define y2 where "y2 = (emptyYear ''2024'')\<lparr>totalSteps := 300, bestDay := (300, ''2024-01-01'')\<rparr>"
  have steps: "totalSteps y1 = 100 + 200 \<and> totalSteps y2 = 300"
    by (simp add: y1_def y2_def)
  have ne: "[y1, y2] \<noteq> [] \<and> (\<forall>y\<in>set [y1, y2]. 0 \<le> fst (bestDay y))"
    by (simp add: y1_def y2_def)
  have perm: "mset [y2, y1] = mset [y1, y2]" by simp
  note p = allTime_properties [of "[y1, y2]" "[y2, y1]" y1 y2]
  have a: "totalSteps (allTime [y1, y2]) = 600" using p steps by blast
  have b: "fst (bestDay (allTime [y1, y2])) = Max (set (map (\<lambda>y. fst (bestDay y)) [y1, y2]))"
    using p ne by blast
  have c: "totalSteps (allTime [y2, y1]) = totalSteps (allTime [y1, y2])"
    using p perm by blast
  have b': "fst (bestDay (allTime [y1, y2])) = 300"
    unfolding b by (simp add: y1_def y2_def)
  have t: "yearTotalSteps
     \<lparr>steps = [\<lparr>st_year = Some 2023, st_count = 100, st_deviceSource = True\<rparr>,
               \<lparr>st_year = Some 2023, st_count = 200, st_deviceSource = True\<rparr>,
               \<lparr>st_year = Some 2024, st_count = 300, st_deviceSource = True\<rparr>],
      exercises = [], sleep = [], heartRate = [], hrv = []\<rparr> 2023 = 100 + 200"
    "yearTotalSteps
     \<lparr>steps = [\<lparr>st_year = Some 2023, st_count = 100, st_deviceSource = True\<rparr>,
               \<lparr>st_year = Some 2023, st_count = 200, st_deviceSource = True\<rparr>,
               \<lparr>st_year = Some 2024, st_count = 300, st_deviceSource = True\<rparr>],
      exercises = [], sleep = [], heartRate = [], hrv = []\<rparr> 2024 = 300"
    by (simp_all add: yearTotalSteps_def yearSteps_def)
  show ?thesis using a b' c t unfolding y1_def y2_def by simp
qed

text \<open>
  Two years with daily averages 1 and 2: the All Time daily average is 2, not the
  arithmetic mean 3/2.
\<close>

theorem allTime_mean_counterexample:
  "dailyAvg (allTime [(emptyYear ''2023'')\<lparr>dailyAvg := 1\<rparr>, (emptyYear ''2024'')\<lparr>dailyAvg := 2\<rparr>]) = 2 \<and>
   real_of_int (dailyAvg (allTime [(emptyYear ''2023'')\<lparr>dailyAvg := 1\<rparr>, (emptyYear ''2024'')\<lparr>dailyAvg := 2\<rparr>])) \<noteq>
     (real_of_int (dailyAvg ((emptyYear ''2023'')\<lparr>dailyAvg := 1\<rparr>)) + real_of_int (dailyAvg ((emptyYear ''2024'')\<lparr>dailyAvg := 2\<rparr>))) / 2"
  by (simp add: allTime_def meanRounded_def js_round_def emptyYear_def)

end
